theory Spec2Isabelle
  imports Main "HOL-Library.List_Lexorder" "HOL-Library.Char_ord" "HOL-Library.Sublist"
begin

chapter \<open>Orthanc Explorer 2 plugin: a model of \<^verbatim>\<open>Plugin/Plugin.cpp\<close>\<close>

section \<open>JSON values\<close>

text \<open>
  The plugin handles its configuration as \<^verbatim>\<open>Json::Value\<close> trees. A value carries one of the
  type tags below; an object is a \<^verbatim>\<open>std::map\<close> from member names to values, that is, a list of
  members kept in strictly increasing order of their names (bytewise lexicographic order, which
  is the order of \<^typ>\<open>string\<close> here). Numbers are modelled as integers: the merger never looks
  inside a scalar, and the conversions of the library are given below for integers. (The
  numbers of a JSON document are finite, so every value equals itself.)
\<close>

datatype ValueType =
  nullValue | intValue | stringValue | booleanValue | arrayValue | objectValue

datatype json =
    JNull
  | JInt int
  | JString string
  | JBool bool
  | JArray "json list"
  | JObject "(string \<times> json) list"

fun type_of :: "json \<Rightarrow> ValueType" where
  "type_of JNull = nullValue"
| "type_of (JInt _) = intValue"
| "type_of (JString _) = stringValue"
| "type_of (JBool _) = booleanValue"
| "type_of (JArray _) = arrayValue"
| "type_of (JObject _) = objectValue"

definition isNull :: "json \<Rightarrow> bool" where
  "isNull v = (type_of v = nullValue)"

definition isObject :: "json \<Rightarrow> bool" where
  "isObject v = (type_of v = objectValue)"

text \<open>The members of an object; a null value has none (it becomes an object on first write).\<close>

fun members :: "json \<Rightarrow> (string \<times> json) list" where
  "members (JObject m) = m"
| "members _ = []"

definition getMemberNames :: "json \<Rightarrow> string list" where
  "getMemberNames v = map fst (members v)"

definition lookup :: "json \<Rightarrow> string \<Rightarrow> json option" where
  "lookup v key = map_of (members v) key"

text \<open>
  \<^verbatim>\<open>v[key]\<close> read on a null or object value: the member, or null when there is none.
\<close>

definition subscript :: "json \<Rightarrow> string \<Rightarrow> json" where
  "subscript v key = (case lookup v key of Some x \<Rightarrow> x | None \<Rightarrow> JNull)"

text \<open>Insertion into a \<^verbatim>\<open>std::map\<close>: an existing key is overwritten, a new one goes to its place.\<close>

fun map_insert :: "string \<Rightarrow> 'v \<Rightarrow> (string \<times> 'v) list \<Rightarrow> (string \<times> 'v) list" where
  "map_insert k v [] = [(k, v)]"
| "map_insert k v ((k', v') # m) =
     (if k = k' then (k, v) # m
      else if k < k' then (k, v) # (k', v') # m
      else (k', v') # map_insert k v m)"

text \<open>\<^verbatim>\<open>a[key] = v\<close> on a null or object value \<open>a\<close>; the result is always an object.\<close>

definition assign :: "json \<Rightarrow> string \<Rightarrow> json \<Rightarrow> json" where
  "assign a key v = JObject (map_insert key v (members a))"

text \<open>
  What a read \<^verbatim>\<open>a[key]\<close> leaves behind in a mutable null or object value \<open>a\<close>: a member
  that was missing now exists and is null (and a null \<open>a\<close> has become an object).
\<close>

definition resolveReference :: "json \<Rightarrow> string \<Rightarrow> json" where
  "resolveReference a key = (if lookup a key = None then assign a key JNull else a)"

text \<open>
  The representation invariant: the member names of every object are strictly increasing
  (hence distinct), at every depth. Every \<^verbatim>\<open>Json::Value\<close> corresponds to exactly one such tree,
  so equality of well-formed trees is \<^verbatim>\<open>operator==\<close> of the library.
\<close>

fun wf_json :: "json \<Rightarrow> bool" where
  "wf_json (JObject m) = (sorted_wrt (<) (map fst m) \<and> (\<forall>v \<in> set (map snd m). wf_json v))"
| "wf_json (JArray xs) = (\<forall>v \<in> set xs. wf_json v)"
| "wf_json _ = True"

section \<open>The configuration merger\<close>

text \<open>
  \<^verbatim>\<open>
  void MergeJson(Json::Value &a, const Json::Value &b) {
    if (!a.isObject() || !b.isObject()) { return; }
    Json::Value::Members members = b.getMemberNames();
    for (size_t i = 0; i < members.size(); i++) {
      std::string key = members[i];
      if (!a[key].isNull() && a[key].type() == Json::objectValue
          && b[key].type() == Json::objectValue)
      { MergeJson(a[key], b[key]); }
      else
      { a[key] = b[key]; }
    }
  }
  \<close>
  The function updates \<open>a\<close> in place; the model returns the updated value. The loop is a fold
  over the member names of \<open>b\<close> whose state is \<open>a\<close>. Past the guard both values are objects, so
  none of the library's type assertions can fail and there is no error result. The test
  \<^verbatim>\<open>a[key].isNull()\<close> on the mutable \<open>a\<close> creates a null member when \<open>key\<close> is new
  (\<open>resolveReference\<close>); in that case the else branch runs and overwrites it, so the fold works
  on \<open>a\<close> directly (lemmas \<open>subscript_resolveReference\<close> and \<open>assign_after_touch\<close> below).
  The recursion descends into \<open>b\<close>.
\<close>

function MergeJson :: "json \<Rightarrow> json \<Rightarrow> json" where
  "MergeJson a b =
     (if \<not> isObject a \<or> \<not> isObject b then a
      else fold (\<lambda>key a'.
             if \<not> isNull (subscript a' key) \<and> type_of (subscript a' key) = objectValue
                  \<and> type_of (subscript b key) = objectValue
             then assign a' key (MergeJson (subscript a' key) (subscript b key))
             else assign a' key (subscript b key))
           (getMemberNames b) a)"
  by pat_completeness auto
termination
proof (relation "measure (\<lambda>(a, b). size b)")
  show "wf (measure (\<lambda>(a :: json, b :: json). size b))"
    by simp
next
  fix a b a' :: json and key :: string
  assume key: "key \<in> set (getMemberNames b)"
  have smaller: "size v < size (JObject m)" if "(k, v) \<in> set m"
    for k :: string and v :: json and m
    using that by (induction m) auto
  from key obtain v where "(key, v) \<in> set (members b)" "subscript b key = v"
    by (cases "map_of (members b) key")
      (auto simp: getMemberNames_def subscript_def lookup_def map_of_eq_None_iff
        dest: map_of_SomeD)
  with smaller[of key v "members b"] key have "size (subscript b key) < size b"
    by (cases b) (simp_all add: getMemberNames_def)
  then show "((subscript a' key, subscript b key), (a, b)) \<in> measure (\<lambda>(a, b). size b)"
    by simp
qed

declare MergeJson.simps [simp del]

text \<open>The value that one round of the loop stores at \<open>key\<close>, and the round itself.\<close>

definition merged_value :: "json \<Rightarrow> json \<Rightarrow> json" where
  "merged_value av bv = (if isObject av \<and> isObject bv then MergeJson av bv else bv)"

definition merge_step :: "json \<Rightarrow> string \<Rightarrow> json \<Rightarrow> json" where
  "merge_step b key a' = assign a' key (merged_value (subscript a' key) (subscript b key))"

text \<open>The value found by following a path of member names from the root of a document.\<close>

fun at_path :: "json \<Rightarrow> string list \<Rightarrow> json option" where
  "at_path v [] = Some v"
| "at_path v (k # ks) = (case lookup v k of None \<Rightarrow> None | Some x \<Rightarrow> at_path x ks)"

text \<open>
  A path is left alone by \<open>b\<close> when, walking \<open>b\<close> along it, a member name is missing before the
  path ends and every value met before that is an object.
\<close>

fun unmentioned :: "json \<Rightarrow> string list \<Rightarrow> bool" where
  "unmentioned b [] = False"
| "unmentioned b (k # ks) =
     (case lookup b k of None \<Rightarrow> True | Some bv \<Rightarrow> isObject bv \<and> unmentioned bv ks)"

text \<open>The documents of the specification's merge scenario.\<close>

definition scenario_default :: json where
  "scenario_default =
     JObject [(''Enable'', JBool True), (''Root'', JString ''/ui/''),
              (''UiOptions'', JObject [(''a'', JInt 1)])]"

definition scenario_user :: json where
  "scenario_user = JObject [(''UiOptions'', JObject [(''b'', JInt 2)])]"

text \<open>
  Documents for the overwrite rule: the user replaces an object by a scalar (\<open>U\<close>), a scalar by
  an object (\<open>K\<close>), an array by an array (\<open>L\<close>), and adds a member (\<open>N\<close>).
\<close>

definition overwrite_default :: json where
  "overwrite_default =
     JObject [(''K'', JInt 1), (''L'', JArray [JInt 1, JInt 2]),
              (''U'', JObject [(''a'', JInt 1)])]"

definition overwrite_user :: json where
  "overwrite_user =
     JObject [(''K'', JObject [(''x'', JInt 1)]), (''L'', JArray [JInt 7]),
              (''N'', JBool False), (''U'', JInt 5)]"

section \<open>Exceptions and conversions of the JSON library\<close>

text \<open>
  Exceptions are values. \<open>Json_LogicError\<close> is what the JSON library throws when a value does
  not have the type an operation needs; \<open>OrthancException\<close> is the framework's exception.
\<close>

datatype ErrorCode = ErrorCode_InternalError | ErrorCode_Other string

datatype exception = OrthancException ErrorCode | Json_LogicError

text \<open>\<^verbatim>\<open>v[key]\<close> on a value of any type: only a null or an object value can be indexed by name.\<close>

definition at_key :: "json \<Rightarrow> string \<Rightarrow> exception + json" where
  "at_key v key =
     (if type_of v = nullValue \<or> type_of v = objectValue then Inr (subscript v key)
      else Inl Json_LogicError)"

definition isMember :: "json \<Rightarrow> string \<Rightarrow> exception + bool" where
  "isMember v key =
     (if type_of v = nullValue \<or> type_of v = objectValue then Inr (lookup v key \<noteq> None)
      else Inl Json_LogicError)"

text \<open>The conversion of a value to \<^verbatim>\<open>bool\<close> in a condition: \<^verbatim>\<open>!isNull()\<close>.\<close>

definition operator_bool :: "json \<Rightarrow> bool" where
  "operator_bool v = (\<not> isNull v)"

fun valueToString :: "nat \<Rightarrow> string" where
  "valueToString n =
     (if n < 10 then [char_of (48 + n)]
      else valueToString (n div 10) @ [char_of (48 + n mod 10)])"

declare valueToString.simps [simp del]

fun asString :: "json \<Rightarrow> exception + string" where
  "asString JNull = Inr []"
| "asString (JString s) = Inr s"
| "asString (JBool b) = Inr (if b then ''true'' else ''false'')"
| "asString (JInt i) =
     Inr (if i < 0 then ''-'' @ valueToString (nat (- i)) else valueToString (nat i))"
| "asString (JArray _) = Inl Json_LogicError"
| "asString (JObject _) = Inl Json_LogicError"

fun asBool :: "json \<Rightarrow> exception + bool" where
  "asBool (JBool b) = Inr b"
| "asBool JNull = Inr False"
| "asBool (JInt i) = Inr (i \<noteq> 0)"
| "asBool (JString _) = Inl Json_LogicError"
| "asBool (JArray _) = Inl Json_LogicError"
| "asBool (JObject _) = Inl Json_LogicError"

text \<open>
  The elements that a loop \<^verbatim>\<open>for (i = 0; i < v.size(); i++) ... v[i]\<close> visits: those of an
  array; none for a scalar, a null or an empty object; indexing a non-empty object by position
  throws.
\<close>

fun elements :: "json \<Rightarrow> exception + json list" where
  "elements (JArray xs) = Inr xs"
| "elements (JObject []) = Inr []"
| "elements (JObject (_ # _)) = Inl Json_LogicError"
| "elements _ = Inr []"

section \<open>The framework, the host and the embedded resources\<close>

text \<open>
  The plugin calls functions of the Orthanc framework whose code is not part of the plugin.
  They are parameters of the model: every theorem below holds for all of them.
\<close>

datatype MimeType =
  MimeType_Binary | MimeType_Html | MimeType_Ico | MimeType_JavaScript | MimeType_Other string

record framework =
  AutodetectMimeType :: "string \<Rightarrow> MimeType"
  EnumerationToString :: "MimeType \<Rightarrow> string"
  SubstituteVariables :: "string \<Rightarrow> (string \<times> string) list \<Rightarrow> exception + string"
  SplitUriComponents :: "string \<Rightarrow> exception + string list"

definition StartsWith :: "string \<Rightarrow> string \<Rightarrow> bool" where
  "StartsWith str pre = (take (length pre) str = pre)"

text \<open>
  The host answers \<^verbatim>\<open>RestApiGet(result, uri, false)\<close> with a JSON document, or the call
  fails and leaves \<open>result\<close> as it was (a fresh null value at both call sites).
\<close>

type_synonym host = "string \<Rightarrow> json option"

definition RestApiGet :: "host \<Rightarrow> string \<Rightarrow> json" where
  "RestApiGet host uri = (case host uri of Some answer \<Rightarrow> answer | None \<Rightarrow> JNull)"

datatype DirectoryResourceId = WEB_APPLICATION_ASSETS

datatype FileResourceId = WEB_APPLICATION_INDEX | WEB_APPLICATION_FAVICON | DEFAULT_CONFIGURATION

text \<open>The embedded store: the files of each directory resource, by path.\<close>

type_synonym store = "DirectoryResourceId \<Rightarrow> string \<Rightarrow> string option"

text \<open>
  Modelled from the spec: \<^verbatim>\<open>Orthanc::EmbeddedResources::GetDirectoryResource\<close> belongs to the
  generated resource bundle, which is not among the sources. The specification treats the store
  as a lookup by directory and relative path and says that ``a missing resource yields an empty
  body, not an error''.
\<close>

definition GetDirectoryResource :: "store \<Rightarrow> DirectoryResourceId \<Rightarrow> string \<Rightarrow> string" where
  "GetDirectoryResource st folder path =
     (case st folder path of Some content \<Rightarrow> content | None \<Rightarrow> [])"

section \<open>The static responder for a directory of assets\<close>

datatype OrthancPluginHttpMethod =
    OrthancPluginHttpMethod_Get
  | OrthancPluginHttpMethod_Post
  | OrthancPluginHttpMethod_Put
  | OrthancPluginHttpMethod_Delete

text \<open>The request, with its fields \<^verbatim>\<open>method\<close> and \<^verbatim>\<open>groups\<close>.\<close>

record OrthancPluginHttpRequest =
  http_method :: OrthancPluginHttpMethod
  groups :: "string list"

text \<open>What a handler sends: the SDK call it makes on the output, with the call's arguments.\<close>

datatype answer =
    SendMethodNotAllowed string
  | AnswerBuffer string string
  | Redirect string

text \<open>The HTTP status with which the host carries out each of these calls.\<close>

fun http_status :: "answer \<Rightarrow> nat" where
  "http_status (SendMethodNotAllowed _) = 405"
| "http_status (AnswerBuffer _ _) = 200"
| "http_status (Redirect _) = 301"

text \<open>
  The dictionary of lines 55--58, a \<^verbatim>\<open>std::map\<close> filled by three assignments.
  \<^verbatim>\<open>oe2BaseUrl_.substr(0, oe2BaseUrl_.size() - 1)\<close> drops the last character; on the empty
  string the length wraps around and the result is the empty string again, as \<open>butlast\<close> gives.
\<close>

definition dictionary :: "string \<Rightarrow> (string \<times> string) list" where
  "dictionary oe2BaseUrl =
     map_insert ''OE2_API_BASE_URL'' (butlast oe2BaseUrl @ ''/api/'')
       (map_insert ''OE2_BASE_URL'' (butlast oe2BaseUrl @ ''/app'')
         (map_insert ''ORTHANC_API_BASE_URL'' ''/'' []))"

text \<open>
  \<^verbatim>\<open>
  if (request->method != OrthancPluginHttpMethod_Get)
    OrthancPluginSendMethodNotAllowed(context, output, "GET");
  else {
    std::string path = "/" + std::string(request->groups[0]);
    Orthanc::MimeType mimeType = Orthanc::SystemToolbox::AutodetectMimeType(path);
    const char* mime = Orthanc::EnumerationToString(mimeType);
    std::string fileContent;
    Orthanc::EmbeddedResources::GetDirectoryResource(fileContent, folder, path.c_str());
    if (mimeType == Orthanc::MimeType_JavaScript && Orthanc::Toolbox::StartsWith(path, "/index.")) {
      ... dictionary ...
      try { fileContent = Orthanc::Toolbox::SubstituteVariables(fileContent, dictionary); }
      catch (Orthanc::OrthancException& ex) { OrthancPluginLogError(...); }
    }
    OrthancPluginAnswerBuffer(context, output, resource, fileContent.size(), mime);
  }
  \<close>
  The route of this handler has one capture group, which the host passes as \<^verbatim>\<open>groups[0]\<close>.
  The handler catches the framework's exception only; any other one leaves the handler.
\<close>

definition ServeEmbeddedFolder ::
  "framework \<Rightarrow> store \<Rightarrow> string \<Rightarrow> DirectoryResourceId \<Rightarrow> OrthancPluginHttpRequest
     \<Rightarrow> exception + answer"
where
  "ServeEmbeddedFolder fw st oe2BaseUrl folder request =
     (if http_method request \<noteq> OrthancPluginHttpMethod_Get then Inr (SendMethodNotAllowed ''GET'')
      else
        let path = ''/'' @ groups request ! 0;
            mimeType = AutodetectMimeType fw path;
            mime = EnumerationToString fw mimeType;
            fileContent = GetDirectoryResource st folder path
        in
          if mimeType = MimeType_JavaScript \<and> StartsWith path ''/index.''
          then (case SubstituteVariables fw fileContent (dictionary oe2BaseUrl) of
                  Inr replacedString \<Rightarrow> Inr (AnswerBuffer replacedString mime)
                | Inl (OrthancException ex) \<Rightarrow> Inr (AnswerBuffer fileContent mime)
                | Inl other \<Rightarrow> Inl other)
          else Inr (AnswerBuffer fileContent mime))"

text \<open>
  The file name of a path in the words of the specification (``the path's filename''): what
  follows the last separator.
\<close>

definition path_filename :: "string \<Rightarrow> string" where
  "path_filename path = rev (takeWhile (\<lambda>c. c \<noteq> CHR ''/'') (rev path))"

section \<open>The plugin-enablement resolver\<close>

text \<open>
  Modelled from the spec: \<^verbatim>\<open>OrthancConfiguration::IsSection\<close>, \<^verbatim>\<open>GetSection\<close> and
  \<^verbatim>\<open>GetBooleanValue\<close> belong to the plugin SDK wrapper (\<^verbatim>\<open>OrthancPluginCppWrapper\<close>), which
  is not among the sources. The specification describes them as ``query whether a named
  configuration section exists and read boolean/string values from it'', a rule being ``enabled
  iff host configuration section S exists and contains key K with non-empty/true value''. A
  section is a member of the configuration that is an object; a value is truthy when it is
  \<open>true\<close>, a number other than zero, or a non-empty string, array or object.
\<close>

definition IsSection :: "json \<Rightarrow> string \<Rightarrow> bool" where
  "IsSection configuration key =
     (case lookup configuration key of Some v \<Rightarrow> isObject v | None \<Rightarrow> False)"

text \<open>
  Modelled from the spec: \<^verbatim>\<open>OrthancConfiguration::GetSection\<close> (SDK wrapper, not among the
  sources) gives the named section of a configuration.
\<close>

definition GetSection :: "json \<Rightarrow> string \<Rightarrow> json" where
  "GetSection configuration key = subscript configuration key"

text \<open>
  Modelled from the spec: what ``truthy'' and ``non-empty/true value'' mean for the value of a
  key; the reading of a Boolean is part of \<^verbatim>\<open>GetBooleanValue\<close> (SDK wrapper, not among the
  sources).
\<close>

fun truthy :: "json \<Rightarrow> bool" where
  "truthy JNull = False"
| "truthy (JBool b) = b"
| "truthy (JInt i) = (i \<noteq> 0)"
| "truthy (JString s) = (s \<noteq> [])"
| "truthy (JArray xs) = (xs \<noteq> [])"
| "truthy (JObject m) = (m \<noteq> [])"

text \<open>
  Modelled from the spec: \<^verbatim>\<open>OrthancConfiguration::GetBooleanValue\<close> (SDK wrapper, not among
  the sources) reads a Boolean from a section, with a default for an absent key.
\<close>

definition GetBooleanValue :: "json \<Rightarrow> string \<Rightarrow> bool \<Rightarrow> bool" where
  "GetBooleanValue section key defaultValue =
     (case lookup section key of Some v \<Rightarrow> truthy v | None \<Rightarrow> defaultValue)"

text \<open>
  \<^verbatim>\<open>bool GetPluginConfiguration(Json::Value& pluginConfiguration, const std::string& sectionName)\<close>
  returns whether the section exists, and the section in its first argument, which is left
  as it was (a fresh null value at every call site) when there is none.
\<close>

definition GetPluginConfiguration :: "json \<Rightarrow> string \<Rightarrow> bool \<times> json" where
  "GetPluginConfiguration orthancFullConfiguration sectionName =
     (if IsSection orthancFullConfiguration sectionName
      then (True, GetSection orthancFullConfiguration sectionName)
      else (False, JNull))"

definition IsPluginEnabledInConfiguration :: "json \<Rightarrow> string \<Rightarrow> string \<Rightarrow> bool" where
  "IsPluginEnabledInConfiguration orthancFullConfiguration sectionName enableValueName =
     (if IsSection orthancFullConfiguration sectionName
      then GetBooleanValue (GetSection orthancFullConfiguration sectionName) enableValueName False
      else False)"

definition GetPluginInfo :: "host \<Rightarrow> string \<Rightarrow> json" where
  "GetPluginInfo host pluginName = RestApiGet host (''/plugins/'' @ pluginName)"

text \<open>\<^verbatim>\<open>pluginsConfiguration[pluginName]["Enabled"] = enabled\<close>.\<close>

definition set_Enabled :: "json \<Rightarrow> string \<Rightarrow> bool \<Rightarrow> json" where
  "set_Enabled pluginsConfiguration pluginName enabled =
     assign pluginsConfiguration pluginName
       (assign (subscript pluginsConfiguration pluginName) ''Enabled'' (JBool enabled))"

text \<open>
  The chain of conditionals of lines 231--306, in the order of the source. Every branch
  assigns one value to \<^verbatim>\<open>pluginsConfiguration[pluginName]["Enabled"]\<close>: the function gives that
  value, or \<open>None\<close> when no branch is taken.
\<close>

definition enablement_override :: "json \<Rightarrow> string \<Rightarrow> bool option" where
  "enablement_override cfg pluginName =
     (if pluginName = ''authorization'' then
        Some
          (fst (GetPluginConfiguration cfg ''Authorization'')
           \<and> lookup (snd (GetPluginConfiguration cfg ''Authorization'')) ''WebService'' \<noteq> None)
      else if pluginName = ''connectivity-checks'' then Some True
      else if pluginName = ''dicom-web'' then
        Some (IsPluginEnabledInConfiguration cfg ''DicomWeb'' ''Enable'')
      else if pluginName = ''gdcm'' then
        Some (IsPluginEnabledInConfiguration cfg ''Gdcm'' ''Enable'')
      else if pluginName = ''mysql-index'' then
        Some (IsPluginEnabledInConfiguration cfg ''MySQL'' ''EnableIndex'')
      else if pluginName = ''mysql-storage'' then
        Some (IsPluginEnabledInConfiguration cfg ''MySQL'' ''EnableStorage'')
      else if pluginName = ''odbc-index'' then
        Some
          (IsPluginEnabledInConfiguration cfg ''PostgreSQL'' ''EnableIndex'')
      else if pluginName = ''odbc-storage'' then
        Some
          (IsPluginEnabledInConfiguration cfg ''PostgreSQL'' ''EnableStorage'')
      else if pluginName = ''postgresql-index'' then
        Some (IsPluginEnabledInConfiguration cfg ''Odbc'' ''EnableIndex'')
      else if pluginName = ''postgresql-storage'' then
        Some (IsPluginEnabledInConfiguration cfg ''Odbc'' ''EnableStorage'')
      else if pluginName = ''osimis-web-viewer'' then
        Some (fst (GetPluginConfiguration cfg ''WebViewer''))
      else if pluginName = ''python'' then
        Some (fst (GetPluginConfiguration cfg ''PythonScript''))
      else if pluginName = ''serve-folders'' then
        Some (fst (GetPluginConfiguration cfg ''ServeFolders''))
      else if pluginName = ''stone-webviewer'' then
        Some (fst (GetPluginConfiguration cfg ''StoneWebViewer''))
      else if pluginName = ''tcia'' then
        Some (IsPluginEnabledInConfiguration cfg ''Tcia'' ''Enable'')
      else if pluginName = ''transfers'' then Some True
      else if pluginName = ''web-viewer'' then Some True
      else if pluginName = ''worklists'' then
        Some (IsPluginEnabledInConfiguration cfg ''Worklists'' ''Enable'')
      else if pluginName = ''wsi'' then Some True
      else None)"

text \<open>
  Lines 223--226: the root URI of the plugin's info record, rewritten when there is a
  non-empty one. \<^verbatim>\<open>isMember\<close> and \<^verbatim>\<open>asString\<close> throw on values of the wrong type.
\<close>

definition rewrite_RootUri :: "string \<Rightarrow> json \<Rightarrow> exception + json" where
  "rewrite_RootUri pluginUriPrefix pluginInfo =
     (case isMember pluginInfo ''RootUri'' of
        Inl e \<Rightarrow> Inl e
      | Inr False \<Rightarrow> Inr pluginInfo
      | Inr True \<Rightarrow>
          (case asString (subscript pluginInfo ''RootUri'') of
             Inl e \<Rightarrow> Inl e
           | Inr rootUri \<Rightarrow>
               if length rootUri > 0
               then Inr (assign pluginInfo ''RootUri'' (JString (pluginUriPrefix @ rootUri)))
               else Inr pluginInfo))"

text \<open>One round of the loop of lines 211--309, on the element \<^verbatim>\<open>pluginList[i]\<close>.\<close>

definition plugin_round :: "host \<Rightarrow> json \<Rightarrow> string \<Rightarrow> json \<Rightarrow> json \<Rightarrow> exception + json" where
  "plugin_round host cfg pluginUriPrefix element pluginsConfiguration =
     (case asString element of
        Inl e \<Rightarrow> Inl e
      | Inr pluginName \<Rightarrow>
          if pluginName = ''explorer.js'' then Inr pluginsConfiguration
          else
            (case rewrite_RootUri pluginUriPrefix (GetPluginInfo host pluginName) of
               Inl e \<Rightarrow> Inl e
             | Inr pluginInfo \<Rightarrow>
                 let pc = set_Enabled (assign pluginsConfiguration pluginName pluginInfo)
                            pluginName True
                 in Inr (case enablement_override cfg pluginName of
                           Some enabled \<Rightarrow> set_Enabled pc pluginName enabled
                         | None \<Rightarrow> pc)))"

text \<open>
  The record that a round leaves at the plugin's name: the (rewritten) info record with the
  final value of \<open>Enabled\<close>.
\<close>

definition plugin_record :: "host \<Rightarrow> json \<Rightarrow> string \<Rightarrow> string \<Rightarrow> exception + json" where
  "plugin_record host cfg pluginUriPrefix pluginName =
     (case rewrite_RootUri pluginUriPrefix (GetPluginInfo host pluginName) of
        Inl e \<Rightarrow> Inl e
      | Inr pluginInfo \<Rightarrow>
          Inr (assign pluginInfo ''Enabled''
                (JBool (case enablement_override cfg pluginName of
                          Some enabled \<Rightarrow> enabled
                        | None \<Rightarrow> True))))"

text \<open>A loop whose body may throw: the first exception ends it.\<close>

fun for_each :: "('x \<Rightarrow> 's \<Rightarrow> exception + 's) \<Rightarrow> 'x list \<Rightarrow> 's \<Rightarrow> exception + 's" where
  "for_each body [] s = Inr s"
| "for_each body (x # xs) s =
     (case body x s of Inl e \<Rightarrow> Inl e | Inr s' \<Rightarrow> for_each body xs s')"

text \<open>
  \<^verbatim>\<open>Json::Value GetPluginsConfiguration()\<close>. Its inputs are the globals
  \<^verbatim>\<open>orthancFullConfiguration_\<close> and \<^verbatim>\<open>oe2BaseUrl_\<close> and the host's answers. The prefix is built
  by appending \<^verbatim>\<open>"../"\<close> once per component of the base URL.
\<close>

definition GetPluginsConfiguration :: "framework \<Rightarrow> host \<Rightarrow> json \<Rightarrow> string \<Rightarrow> exception + json" where
  "GetPluginsConfiguration fw host cfg oe2BaseUrl =
     (case SplitUriComponents fw oe2BaseUrl of
        Inl e \<Rightarrow> Inl e
      | Inr components \<Rightarrow>
          let pluginUriPrefix = fold (\<lambda>component prefix. prefix @ ''../'') components [];
              pluginList = RestApiGet host ''/plugins''
          in (case elements pluginList of
                Inl e \<Rightarrow> Inl e
              | Inr es \<Rightarrow> for_each (plugin_round host cfg pluginUriPrefix) es JNull))"

text \<open>
  The names that the chain of conditionals tests (the override table), and among them the
  rules of the form ``section and key'', with the section and the key that the source gives.
\<close>

definition override_table :: "string list" where
  "override_table =
     [''authorization'', ''connectivity-checks'', ''dicom-web'', ''gdcm'', ''mysql-index'',
      ''mysql-storage'', ''odbc-index'', ''odbc-storage'', ''postgresql-index'',
      ''postgresql-storage'', ''osimis-web-viewer'', ''python'', ''serve-folders'',
      ''stone-webviewer'', ''tcia'', ''transfers'', ''web-viewer'', ''worklists'', ''wsi'']"

definition section_key_rules :: "(string \<times> string \<times> string) list" where
  "section_key_rules =
     [(''dicom-web'', ''DicomWeb'', ''Enable''),
      (''gdcm'', ''Gdcm'', ''Enable''),
      (''mysql-index'', ''MySQL'', ''EnableIndex''),
      (''mysql-storage'', ''MySQL'', ''EnableStorage''),
      (''odbc-index'', ''PostgreSQL'', ''EnableIndex''),
      (''odbc-storage'', ''PostgreSQL'', ''EnableStorage''),
      (''postgresql-index'', ''Odbc'', ''EnableIndex''),
      (''postgresql-storage'', ''Odbc'', ''EnableStorage''),
      (''tcia'', ''Tcia'', ''Enable''),
      (''worklists'', ''Worklists'', ''Enable'')]"

section \<open>Initialization\<close>

text \<open>
  \<^verbatim>\<open>void ReadConfiguration()\<close>: the plugin's section of the compiled-in default document,
  with the plugin's section of the host configuration merged over it when there is one.
\<close>

definition ReadConfiguration :: "json \<Rightarrow> json \<Rightarrow> exception + json" where
  "ReadConfiguration defaultConfiguration orthancFullConfiguration =
     (case at_key defaultConfiguration ''OrthancExplorer2'' of
        Inl e \<Rightarrow> Inl e
      | Inr pluginJsonConfiguration \<Rightarrow>
          if IsSection orthancFullConfiguration ''OrthancExplorer2''
          then Inr (MergeJson pluginJsonConfiguration
                     (GetSection orthancFullConfiguration ''OrthancExplorer2''))
          else Inr pluginJsonConfiguration)"

text \<open>The condition of lines 381--383 on the configured \<open>Root\<close> string.\<close>

definition Root_is_malformed :: "string \<Rightarrow> bool" where
  "Root_is_malformed oe2BaseUrl =
     (length oe2BaseUrl < 1 \<or> oe2BaseUrl ! 0 \<noteq> CHR ''/''
      \<or> oe2BaseUrl ! (length oe2BaseUrl - 1) \<noteq> CHR ''/'')"

datatype RestCallback =
    Callback_ServeEmbeddedFolder DirectoryResourceId
  | Callback_ServeEmbeddedFile FileResourceId MimeType
  | Callback_GetOE2Configuration
  | Callback_RedirectRoot

text \<open>
  What initialization leaves behind: the globals of the plugin and what it has registered with
  the host (the callbacks with their URI patterns, in order, and the plugin's root URI).
\<close>

record plugin_state =
  pluginJsonConfiguration :: json
  baseUrl :: string
  restCallbacks :: "(string \<times> RestCallback) list"
  rootUri :: "string option"

definition initial_state :: plugin_state where
  "initial_state =
     \<lparr>pluginJsonConfiguration = JNull, baseUrl = [], restCallbacks = [], rootUri = None\<rparr>"

text \<open>
  \<^verbatim>\<open>int32_t OrthancPluginInitialize(OrthancPluginContext* context)\<close>, from the outcome of the
  host's version check, the compiled-in default document and the host configuration. The
  result is the return code (0, or -1 when the plugin refuses to load) and the state. Every
  exception is caught at the end of the function and becomes the return code -1; callbacks
  registered before the exception stay registered. Once \<^verbatim>\<open>pluginJsonConfiguration_["Enable"]\<close>
  has been read, the configuration is known to be null or an object, so the later reads by
  name cannot throw. Each of these reads on the mutable global creates the member as null
  when it is missing.
\<close>

definition OrthancPluginInitialize :: "bool \<Rightarrow> json \<Rightarrow> json \<Rightarrow> int \<times> plugin_state" where
  "OrthancPluginInitialize versionOk defaultConfiguration orthancFullConfiguration =
     (if \<not> versionOk then (- 1, initial_state)
      else
        (case ReadConfiguration defaultConfiguration orthancFullConfiguration of
           Inl e \<Rightarrow> (- 1, initial_state)
         | Inr cfg \<Rightarrow>
             (case at_key cfg ''Enable'' of
                Inl e \<Rightarrow> (- 1, initial_state\<lparr>pluginJsonConfiguration := cfg\<rparr>)
              | Inr enable \<Rightarrow>
                  let cfg1 = resolveReference cfg ''Enable'';
                      st = initial_state\<lparr>pluginJsonConfiguration := cfg1\<rparr>
                  in
                  if operator_bool enable then
                    let cfg2 = resolveReference cfg1 ''Root'';
                        st0 = st\<lparr>pluginJsonConfiguration := cfg2\<rparr>
                    in
                    (case asString (subscript cfg2 ''Root'') of
                       Inl e \<Rightarrow> (- 1, st0)
                     | Inr url \<Rightarrow>
                         let st1 = st0\<lparr>baseUrl := url\<rparr> in
                         if Root_is_malformed url then (- 1, st1)
                         else
                           let cfg3 = resolveReference cfg2 ''ReplaceDefaultExplorer'';
                               st2 = st1
                             \<lparr>pluginJsonConfiguration := cfg3,
                              restCallbacks :=
                                [(url @ ''app/assets/(.*)'',
                                    Callback_ServeEmbeddedFolder WEB_APPLICATION_ASSETS),
                                 (url @ ''app/index.html'',
                                    Callback_ServeEmbeddedFile WEB_APPLICATION_INDEX MimeType_Html),
                                 (url @ ''app/favicon.ico'',
                                    Callback_ServeEmbeddedFile WEB_APPLICATION_FAVICON MimeType_Ico),
                                 (url @ ''app/(.*)'',
                                    Callback_ServeEmbeddedFile WEB_APPLICATION_INDEX MimeType_Html),
                                 (url @ ''app'',
                                    Callback_ServeEmbeddedFile WEB_APPLICATION_INDEX MimeType_Html),
                                 (url @ ''api/configuration'', Callback_GetOE2Configuration)],
                              rootUri := Some (url @ ''app/'')\<rparr>
                           in
                             (case asBool (subscript cfg3 ''ReplaceDefaultExplorer'') of
                                Inl e \<Rightarrow> (- 1, st2)
                              | Inr replace \<Rightarrow>
                                  if replace
                                  then (0, st2\<lparr>restCallbacks :=
                                              restCallbacks st2 @ [(''/'', Callback_RedirectRoot)]\<rparr>)
                                  else (0, st2)))
                  else (0, st))))"

section \<open>Instances for the closed examples\<close>

text \<open>
  An instance of the framework's functions, for the examples: the MIME type follows the
  extension \<open>.js\<close>; a text that is exactly one token \<^verbatim>\<open>${NAME}\<close> is replaced by the value of
  \<open>NAME\<close>; a URI is split at its separators.
\<close>

fun split_uri :: "string \<Rightarrow> string \<Rightarrow> string list" where
  "split_uri component [] = (if component = [] then [] else [rev component])"
| "split_uri component (c # cs) =
     (if c = CHR ''/''
      then (if component = [] then split_uri [] cs else rev component # split_uri [] cs)
      else split_uri (c # component) cs)"

definition example_framework :: framework where
  "example_framework =
     \<lparr>AutodetectMimeType =
        (\<lambda>path. if drop (length path - 3) path = ''.js'' then MimeType_JavaScript
                else MimeType_Binary),
      EnumerationToString =
        (\<lambda>mimeType. case mimeType of
            MimeType_JavaScript \<Rightarrow> ''application/javascript''
          | MimeType_Html \<Rightarrow> ''text/html''
          | MimeType_Ico \<Rightarrow> ''image/x-icon''
          | MimeType_Binary \<Rightarrow> ''application/octet-stream''
          | MimeType_Other name \<Rightarrow> name),
      SubstituteVariables =
        (\<lambda>source dict.
            Inr (case find (\<lambda>(name, value). source = ''${'' @ name @ ''}'') dict of
                   Some (name, value) \<Rightarrow> value
                 | None \<Rightarrow> source)),
      SplitUriComponents =
        (\<lambda>uri. if StartsWith uri ''/'' then Inr (split_uri [] uri)
               else Inl (OrthancException (ErrorCode_Other ''UriSyntax'')))\<rparr>"

definition example_store :: store where
  "example_store =
     (\<lambda>folder. [''/index.4f2a.js'' \<mapsto> ''${OE2_BASE_URL}'', ''/sub/index.js'' \<mapsto> ''${OE2_BASE_URL}'',
                 ''/logo.png'' \<mapsto> ''PNG''])"

text \<open>A host with three plugins, one of them the explorer script that the resolver skips.\<close>

definition example_host :: host where
  "example_host =
     [''/plugins'' \<mapsto> JArray [JString ''dicom-web'', JString ''explorer.js'', JString ''housekeeper''],
      ''/plugins/dicom-web'' \<mapsto>
         JObject [(''ID'', JString ''dicom-web''), (''RootUri'', JString ''../dicom-web/app/'')],
      ''/plugins/housekeeper'' \<mapsto> JObject [(''ID'', JString ''housekeeper'')]]"

definition example_configuration :: json where
  "example_configuration =
     JObject [(''DicomWeb'', JObject [(''Enable'', JBool True)]), (''Name'', JString ''Orthanc'')]"

text \<open>What the resolver answers for this host and configuration under the base URL \<open>/ui/\<close>.\<close>

definition example_output :: json where
  "example_output =
     JObject
       [(''dicom-web'',
         JObject [(''Enabled'', JBool True), (''ID'', JString ''dicom-web''),
                  (''RootUri'', JString ''../../dicom-web/app/'')]),
        (''housekeeper'',
         JObject [(''Enabled'', JBool True), (''ID'', JString ''housekeeper'')])]"

text \<open>The same host when the configuration has no section at all.\<close>

definition example_output_unconfigured :: json where
  "example_output_unconfigured =
     JObject
       [(''dicom-web'',
         JObject [(''Enabled'', JBool False), (''ID'', JString ''dicom-web''),
                  (''RootUri'', JString ''../../dicom-web/app/'')]),
        (''housekeeper'',
         JObject [(''Enabled'', JBool True), (''ID'', JString ''housekeeper'')])]"

text \<open>
  The four strings of the claim, each as the user's \<open>Root\<close> over the default document of the
  specification's scenario.
\<close>

definition startup_with_Root :: "string \<Rightarrow> int \<times> plugin_state" where
  "startup_with_Root url =
     OrthancPluginInitialize True (JObject [(''OrthancExplorer2'', scenario_default)])
       (JObject [(''OrthancExplorer2'', JObject [(''Root'', JString url)])])"

section \<open>Properties of the JSON operations\<close>

lemma map_of_map_insert: "map_of (map_insert k v m) = (map_of m)(k \<mapsto> v)"
  by (induction m) (auto simp: fun_eq_iff)

lemma keys_map_insert: "fst ` set (map_insert k v m) = insert k (fst ` set m)"
proof -
  have "dom (map_of (map_insert k v m)) = insert k (dom (map_of m))"
    by (simp add: map_of_map_insert)
  then show ?thesis by (simp add: dom_map_of_conv_image_fst)
qed

lemma sorted_map_insert:
  "sorted_wrt (<) (map fst m) \<Longrightarrow> sorted_wrt (<) (map fst (map_insert k v m))"
proof (induction m)
  case Nil
  then show ?case by simp
next
  case (Cons p m)
  obtain k' v' where p: "p = (k', v')" by (cases p)
  from Cons show ?case
    unfolding p using keys_map_insert[of k v m]
    by auto
qed

lemma map_insert_same:
  "sorted_wrt (<) (map fst m) \<Longrightarrow> map_of m k = Some v \<Longrightarrow> map_insert k v m = m"
proof (induction m)
  case Nil
  then show ?case by simp
next
  case (Cons p m)
  obtain k' v' where p: "p = (k', v')" by (cases p)
  show ?case
  proof (cases "k = k'")
    case True
    with Cons.prems show ?thesis by (simp add: p)
  next
    case False
    with Cons.prems have in_m: "map_of m k = Some v" by (simp add: p)
    then have "k \<in> set (map fst m)"
      by (metis map_of_eq_None_iff option.distinct(1) set_map)
    with Cons.prems have "k' < k" by (auto simp: p)
    with Cons False in_m show ?thesis by (auto simp: p)
  qed
qed

lemma map_insert_overwrite: "map_insert k v (map_insert k w m) = map_insert k v m"
  by (induction m) auto

lemma lookup_assign: "lookup (assign a k v) k' = (if k' = k then Some v else lookup a k')"
  by (simp add: lookup_def assign_def map_of_map_insert)

lemma subscript_assign: "subscript (assign a k v) k' = (if k' = k then v else subscript a k')"
  by (simp add: subscript_def lookup_assign)

lemma isObject_assign: "isObject (assign a k v)"
  by (simp add: isObject_def assign_def)

lemma assign_overwrite: "assign (assign a k w) k v = assign a k v"
  by (simp add: assign_def map_insert_overwrite)

text \<open>Creating a null member first, as the mutable \<^verbatim>\<open>a[key]\<close> does, changes nothing.\<close>

lemma assign_after_touch: "assign (resolveReference a k) k v = assign a k v"
  by (simp add: resolveReference_def assign_overwrite)

lemma subscript_resolveReference: "subscript (resolveReference a k) k' = subscript a k'"
  by (simp add: resolveReference_def subscript_assign) (simp add: subscript_def)

lemma assign_same:
  "isObject r \<Longrightarrow> sorted_wrt (<) (getMemberNames r) \<Longrightarrow> lookup r k = Some v \<Longrightarrow> assign r k v = r"
  by (cases r) (simp_all add: isObject_def assign_def getMemberNames_def lookup_def map_insert_same)

lemma sorted_assign:
  "sorted_wrt (<) (getMemberNames a) \<Longrightarrow> sorted_wrt (<) (getMemberNames (assign a k v))"
  by (simp add: getMemberNames_def assign_def sorted_map_insert)

lemma lookup_getMemberNames: "k \<in> set (getMemberNames v) \<longleftrightarrow> lookup v k \<noteq> None"
  by (simp add: getMemberNames_def lookup_def map_of_eq_None_iff)

lemma size_subscript: "key \<in> set (getMemberNames b) \<Longrightarrow> size (subscript b key) < size b"
proof -
  assume key: "key \<in> set (getMemberNames b)"
  have smaller: "size v < size (JObject m)" if "(k, v) \<in> set m"
    for k :: string and v :: json and m
    using that by (induction m) auto
  from key obtain v where "(key, v) \<in> set (members b)" "subscript b key = v"
    by (cases "map_of (members b) key")
      (auto simp: getMemberNames_def subscript_def lookup_def map_of_eq_None_iff
        dest: map_of_SomeD)
  with smaller[of key v "members b"] key show ?thesis
    by (cases b) (simp_all add: getMemberNames_def)
qed

lemma wf_json_keys: "wf_json v \<Longrightarrow> sorted_wrt (<) (getMemberNames v)"
  by (cases v) (simp_all add: getMemberNames_def)

lemma wf_json_distinct: "wf_json v \<Longrightarrow> distinct (getMemberNames v)"
  using wf_json_keys[of v] by (simp add: strict_sorted_iff)

lemma wf_json_lookup: "wf_json v \<Longrightarrow> lookup v k = Some x \<Longrightarrow> wf_json x"
  by (cases v) (auto simp: lookup_def dest!: map_of_SomeD intro: rev_image_eqI)

lemma wf_json_subscript: "wf_json v \<Longrightarrow> wf_json (subscript v k)"
  by (auto simp: subscript_def split: option.splits dest: wf_json_lookup)

section \<open>Properties of the merger\<close>

lemma MergeJson_noop: "\<not> isObject a \<or> \<not> isObject b \<Longrightarrow> MergeJson a b = a"
  by (subst MergeJson.simps) simp

lemma MergeJson_object:
  assumes "isObject a" "isObject b"
  shows "MergeJson a b = fold (merge_step b) (getMemberNames b) a"
proof -
  have body: "(\<lambda>key a'.
             if \<not> isNull (subscript a' key) \<and> type_of (subscript a' key) = objectValue
                  \<and> type_of (subscript b key) = objectValue
             then assign a' key (MergeJson (subscript a' key) (subscript b key))
             else assign a' key (subscript b key)) = merge_step b"
    by (intro ext) (auto simp: merge_step_def merged_value_def isObject_def isNull_def)
  show ?thesis
    by (subst MergeJson.simps) (simp add: assms body)
qed

lemma lookup_merge_step:
  "lookup (merge_step b key a) k =
     (if k = key then Some (merged_value (subscript a key) (subscript b key)) else lookup a k)"
  by (simp add: merge_step_def lookup_assign)

lemma subscript_merge_step_other: "k \<noteq> key \<Longrightarrow> subscript (merge_step b key a) k = subscript a k"
  by (simp add: subscript_def lookup_merge_step)

lemma fold_lookup_other:
  "k \<notin> set keys \<Longrightarrow> lookup (fold (merge_step b) keys a) k = lookup a k"
  by (induction keys arbitrary: a) (auto simp: lookup_merge_step)

lemma fold_lookup_in:
  "distinct keys \<Longrightarrow> k \<in> set keys \<Longrightarrow>
   lookup (fold (merge_step b) keys a) k = Some (merged_value (subscript a k) (subscript b k))"
proof (induction keys arbitrary: a)
  case Nil
  then show ?case by simp
next
  case (Cons x keys)
  show ?case
  proof (cases "k = x")
    case True
    with Cons.prems have "k \<notin> set keys" by simp
    then show ?thesis
      by (simp add: fold_lookup_other lookup_merge_step True)
  next
    case False
    with Cons.prems have "k \<in> set keys" "distinct keys" by simp_all
    with Cons.IH[of "merge_step b x a"] False show ?thesis
      by (simp add: subscript_merge_step_other)
  qed
qed

lemma isObject_fold: "isObject a \<Longrightarrow> isObject (fold (merge_step b) keys a)"
  by (induction keys arbitrary: a) (auto simp: merge_step_def isObject_assign)

lemma sorted_fold:
  "sorted_wrt (<) (getMemberNames a) \<Longrightarrow>
   sorted_wrt (<) (getMemberNames (fold (merge_step b) keys a))"
  by (induction keys arbitrary: a) (auto simp: merge_step_def sorted_assign)

lemma fold_fixed: "(\<forall>k \<in> set keys. f k r = r) \<Longrightarrow> fold f keys r = r"
  by (induction keys) auto

lemma isObject_MergeJson: "isObject a \<Longrightarrow> isObject (MergeJson a b)"
  by (cases "isObject b") (simp_all add: MergeJson_object isObject_fold MergeJson_noop)

lemma lookup_MergeJson_in:
  assumes "isObject a" "isObject b" "wf_json b" "key \<in> set (getMemberNames b)"
  shows "lookup (MergeJson a b) key = Some (merged_value (subscript a key) (subscript b key))"
  using assms by (simp add: MergeJson_object fold_lookup_in wf_json_distinct)

lemma lookup_MergeJson_other:
  assumes "lookup b key = None"
  shows "lookup (MergeJson a b) key = lookup a key"
proof (cases "isObject a \<and> isObject b")
  case True
  with assms show ?thesis
    by (simp add: MergeJson_object fold_lookup_other lookup_getMemberNames)
next
  case False
  then show ?thesis by (simp add: MergeJson_noop)
qed

text \<open>Merging a document into itself changes nothing.\<close>

lemma MergeJson_self: "wf_json b \<Longrightarrow> MergeJson b b = b"
proof (induction b rule: measure_induct_rule[where f = size])
  case (less b)
  show ?case
  proof (cases "isObject b")
    case False
    then show ?thesis by (simp add: MergeJson_noop)
  next
    case True
    have "merge_step b k b = b" if k: "k \<in> set (getMemberNames b)" for k
    proof -
      from k obtain v where v: "lookup b k = Some v"
        by (auto simp: lookup_getMemberNames)
      then have sub: "subscript b k = v" by (simp add: subscript_def)
      have "size v < size b" using size_subscript[OF k] sub by simp
      moreover have "wf_json v" using less.prems v by (rule wf_json_lookup)
      ultimately have "MergeJson v v = v" by (rule less.IH)
      then have "merged_value v v = v" by (simp add: merged_value_def)
      then show ?thesis
        using True less.prems v by (simp add: merge_step_def sub assign_same wf_json_keys)
    qed
    then show ?thesis
      using True by (simp add: MergeJson_object fold_fixed)
  qed
qed

text \<open>The merged document is again a well-formed JSON value.\<close>

lemma wf_json_MergeJson: "wf_json a \<Longrightarrow> wf_json b \<Longrightarrow> wf_json (MergeJson a b)"
proof (induction b arbitrary: a rule: measure_induct_rule[where f = size])
  case (less b)
  show ?case
  proof (cases "isObject a \<and> isObject b")
    case False
    with less.prems show ?thesis by (auto simp: MergeJson_noop)
  next
    case True
    define r where "r = MergeJson a b"
    have r_obj: "isObject r" using True by (simp add: r_def isObject_MergeJson)
    have r_sorted: "sorted_wrt (<) (getMemberNames r)"
      using True less.prems(1) by (simp add: r_def MergeJson_object sorted_fold wf_json_keys)
    have "wf_json x" if x: "(k, x) \<in> set (members r)" for k x
    proof -
      have "distinct (map fst (members r))"
        using r_sorted by (simp add: getMemberNames_def strict_sorted_iff)
      with x have r_k: "lookup r k = Some x" by (simp add: lookup_def)
      show ?thesis
      proof (cases "k \<in> set (getMemberNames b)")
        case False
        then have "lookup r k = lookup a k"
          by (simp add: r_def lookup_MergeJson_other lookup_getMemberNames)
        with r_k less.prems(1) show ?thesis by (auto dest: wf_json_lookup)
      next
        case in_b: True
        let ?av = "subscript a k" and ?bv = "subscript b k"
        have "lookup r k = Some (merged_value ?av ?bv)"
          using True less.prems(2) in_b by (simp add: r_def lookup_MergeJson_in)
        with r_k have x_eq: "x = merged_value ?av ?bv" by simp
        have wf: "wf_json ?av" "wf_json ?bv"
          using less.prems by (simp_all add: wf_json_subscript)
        have "wf_json (MergeJson ?av ?bv)"
          using less.IH[OF size_subscript[OF in_b] wf] .
        with wf show ?thesis by (simp add: x_eq merged_value_def)
      qed
    qed
    then have "\<forall>v \<in> set (map snd (members r)). wf_json v" by auto
    with r_obj r_sorted have "wf_json r"
      by (cases r) (simp_all add: isObject_def getMemberNames_def)
    then show ?thesis by (simp add: r_def)
  qed
qed

text \<open>
  A path that \<open>b\<close> leaves alone keeps its value: the recursive merge changes only what \<open>b\<close>
  mentions, at any depth.
\<close>

lemma MergeJson_preserves_unmentioned:
  "wf_json b \<Longrightarrow> at_path a p = Some v \<Longrightarrow> unmentioned b p \<Longrightarrow>
   at_path (MergeJson a b) p = Some v"
proof (induction p arbitrary: a b)
  case Nil
  then show ?case by simp
next
  case (Cons k ks)
  from Cons.prems(2) obtain av where av: "lookup a k = Some av" "at_path av ks = Some v"
    by (auto split: option.splits)
  show ?case
  proof (cases "lookup b k")
    case None
    then have "lookup (MergeJson a b) k = lookup a k" by (rule lookup_MergeJson_other)
    with av show ?thesis by simp
  next
    case (Some bv)
    with Cons.prems(3) have bv: "isObject bv" "unmentioned bv ks" by simp_all
    from bv(2) obtain k' ks' where ks: "ks = k' # ks'" by (cases ks) auto
    with av(2) have "members av \<noteq> []" by (auto simp: lookup_def split: option.splits)
    then have av_obj: "isObject av" by (cases av) (simp_all add: isObject_def)
    from av(1) have a_obj: "isObject a" by (cases a) (simp_all add: lookup_def isObject_def)
    from Some have b_obj: "isObject b" by (cases b) (simp_all add: lookup_def isObject_def)
    have "k \<in> set (getMemberNames b)" using Some by (simp add: lookup_getMemberNames)
    with a_obj b_obj Cons.prems(1)
    have "lookup (MergeJson a b) k = Some (merged_value (subscript a k) (subscript b k))"
      by (simp add: lookup_MergeJson_in)
    then have step: "lookup (MergeJson a b) k = Some (MergeJson av bv)"
      using av(1) Some av_obj bv(1) by (simp add: subscript_def merged_value_def)
    have "wf_json bv" using Cons.prems(1) Some by (rule wf_json_lookup)
    then have "at_path (MergeJson av bv) ks = Some v"
      using av(2) bv(2) by (rule Cons.IH)
    with step show ?thesis by simp
  qed
qed

text \<open>The specification's scenario: the user document adds \<open>b\<close> to \<open>UiOptions\<close> and keeps \<open>a\<close>.\<close>

lemma MergeJson_scenario:
  "MergeJson scenario_default scenario_user =
     JObject [(''Enable'', JBool True), (''Root'', JString ''/ui/''),
              (''UiOptions'', JObject [(''a'', JInt 1), (''b'', JInt 2)])]"
  by code_simp

section \<open>Claims about the merger\<close>

text \<open>The lookups of a merge of two objects, at every member name.\<close>

lemma lookup_MergeJson:
  assumes "isObject a" "isObject b" "wf_json b"
  shows "lookup (MergeJson a b) key =
        (case lookup b key of
           None \<Rightarrow> lookup a key
         | Some bv \<Rightarrow>
             (case lookup a key of
                Some av \<Rightarrow> if isObject av \<and> isObject bv then Some (MergeJson av bv) else Some bv
              | None \<Rightarrow> Some bv))"
proof (cases "lookup b key")
  case None
  then show ?thesis by (simp add: lookup_MergeJson_other)
next
  case (Some bv)
  then have "key \<in> set (getMemberNames b)" by (simp add: lookup_getMemberNames)
  with assms have "lookup (MergeJson a b) key
      = Some (merged_value (subscript a key) (subscript b key))"
    by (simp add: lookup_MergeJson_in)
  with Some show ?thesis
    by (simp add: merged_value_def subscript_def isObject_def split: option.splits)
qed

text \<open>Two objects with sorted member names and the same lookups are the same object.\<close>

lemma sorted_map_of_eq:
  fixes xs ys :: "('k::linorder \<times> 'v) list"
  shows "sorted_wrt (<) (map fst xs) \<Longrightarrow> sorted_wrt (<) (map fst ys) \<Longrightarrow>
   map_of xs = map_of ys \<Longrightarrow> xs = ys"
proof (induction xs arbitrary: ys)
  case Nil
  then have "map_of ys = Map.empty" by simp
  then show ?case by simp
next
  case (Cons p xs)
  obtain k v where p: "p = (k, v)" by (cases p)
  have "ys \<noteq> []"
  proof
    assume empty: "ys = []"
    from Cons.prems(3) have "map_of ((k, v) # xs) k = map_of ys k" by (simp only: p)
    with empty show False by simp
  qed
  then obtain q ys' where ys: "ys = q # ys'" by (cases ys) auto
  obtain k' v' where q: "q = (k', v')" by (cases q)
  have xs_k: "map_of xs j = None" if "j \<le> k" for j
  proof -
    from Cons.prems(1) have "\<forall>x \<in> set xs. k < fst x" by (simp add: p)
    with that have "j \<notin> fst ` set xs" by force
    then show ?thesis by (simp add: map_of_eq_None_iff)
  qed
  have ys_k: "map_of ys' j = None" if "j \<le> k'" for j
  proof -
    from Cons.prems(2) have "\<forall>x \<in> set ys'. k' < fst x" by (simp add: ys q)
    with that have "j \<notin> fst ` set ys'" by force
    then show ?thesis by (simp add: map_of_eq_None_iff)
  qed
  have eq: "map_of ((k, v) # xs) j = map_of ((k', v') # ys') j" for j
    using Cons.prems(3) by (simp only: p ys q)
  have "k = k'"
  proof (rule ccontr)
    assume ne: "k \<noteq> k'"
    show False
    proof (cases "k < k'")
      case True
      with eq[of k] ys_k[of k] ne show False by simp
    next
      case False
      with ne have "k' < k" by simp
      with eq[of k'] xs_k[of k'] ne show False by simp
    qed
  qed
  with eq[of k] have "v = v'" by simp
  have "map_of xs = map_of ys'"
  proof
    fix j
    show "map_of xs j = map_of ys' j"
    proof (cases "j = k")
      case True
      with xs_k[of j] ys_k[of j] \<open>k = k'\<close> show ?thesis by simp
    next
      case False
      with eq[of j] \<open>k = k'\<close> show ?thesis by simp
    qed
  qed
  moreover from Cons.prems have "sorted_wrt (<) (map fst xs)" "sorted_wrt (<) (map fst ys')"
    by (simp_all add: ys)
  ultimately have "xs = ys'" using Cons.IH by blast
  with \<open>k = k'\<close> \<open>v = v'\<close> show ?case by (simp add: p ys q)
qed

lemma object_eqI:
  assumes "isObject x" "isObject y" "wf_json x" "wf_json y"
    and "\<And>k. lookup x k = lookup y k"
  shows "x = y"
proof -
  from assms(1,2) obtain xs ys where xy: "x = JObject xs" "y = JObject ys"
    by (cases x; cases y) (simp_all add: isObject_def)
  from assms(5) have "map_of xs = map_of ys" by (auto simp: xy lookup_def)
  with assms(3,4) have "xs = ys" by (auto simp: xy intro: sorted_map_of_eq)
  then show ?thesis by (simp add: xy)
qed

text \<open>
  The contract determines the function: any operation on well-formed JSON values that is a
  no-op on non-objects, yields a well-formed object on objects and has the lookups of the
  contract is \<open>MergeJson\<close>. In particular an operation that returns the source, or the target,
  or that overwrites without recursion, does not meet the contract.
\<close>

lemma MergeJson_contract_unique:
  fixes M :: "json \<Rightarrow> json \<Rightarrow> json"
  assumes noop: "\<And>a b. \<not> isObject a \<or> \<not> isObject b \<Longrightarrow> M a b = a"
    and obj: "\<And>a b. isObject a \<Longrightarrow> isObject b \<Longrightarrow> wf_json a \<Longrightarrow> wf_json b \<Longrightarrow>
                isObject (M a b) \<and> wf_json (M a b)"
    and look: "\<And>a b key. isObject a \<Longrightarrow> isObject b \<Longrightarrow> wf_json a \<Longrightarrow> wf_json b \<Longrightarrow>
      lookup (M a b) key =
        (case lookup b key of
           None \<Rightarrow> lookup a key
         | Some bv \<Rightarrow>
             (case lookup a key of
                Some av \<Rightarrow> if isObject av \<and> isObject bv then Some (M av bv) else Some bv
              | None \<Rightarrow> Some bv))"
  shows "wf_json a \<Longrightarrow> wf_json b \<Longrightarrow> M a b = MergeJson a b"
proof (induction b arbitrary: a rule: measure_induct_rule[where f = size])
  case (less b)
  show ?case
  proof (cases "isObject a \<and> isObject b")
    case False
    then show ?thesis using noop[of a b] by (auto simp: MergeJson_noop)
  next
    case True
    have "lookup (M a b) k = lookup (MergeJson a b) k" for k
    proof (cases "lookup b k")
      case None
      with True less.prems show ?thesis by (simp add: look lookup_MergeJson)
    next
      case bv: (Some bv)
      show ?thesis
      proof (cases "lookup a k")
        case None
        with bv True less.prems show ?thesis by (simp add: look lookup_MergeJson)
      next
        case av: (Some av)
        have "k \<in> set (getMemberNames b)" using bv by (simp add: lookup_getMemberNames)
        from size_subscript[OF this] bv have small: "size bv < size b"
          by (simp add: subscript_def)
        have "wf_json av" "wf_json bv"
          using less.prems av bv by (auto dest: wf_json_lookup)
        with small have "M av bv = MergeJson av bv" by (simp add: less.IH)
        with av bv True less.prems show ?thesis by (simp add: look lookup_MergeJson)
      qed
    qed
    moreover have "isObject (M a b)" "wf_json (M a b)"
      using obj[of a b] True less.prems by simp_all
    moreover have "isObject (MergeJson a b)" "wf_json (MergeJson a b)"
      using True less.prems by (simp_all add: isObject_MergeJson wf_json_MergeJson)
    ultimately show ?thesis by (intro object_eqI)
  qed
qed

text \<open>
  Claim C1. When target and source are both objects, the merge handles every member name of
  the source: where the target has an object at that name and the source has an object too,
  the result holds the recursive merge of the two; in every other case (the source value is a
  scalar or an array, or the target has nothing or a non-object there) the result holds the
  source value itself. This is all it does to the target: the member names of the result are
  those of the target and of the source, a member that the source does not name keeps the
  target's value, and the result is again a well-formed object. When either input is not an
  object the target comes back unchanged. The function is total: there is no error result.
\<close>

theorem MergeJson_contract:
  "(\<not> isObject a \<or> \<not> isObject b \<longrightarrow> MergeJson a b = a) \<and>
   (isObject a \<and> isObject b \<and> wf_json b \<longrightarrow>
      isObject (MergeJson a b) \<and>
      set (getMemberNames (MergeJson a b)) = set (getMemberNames a) \<union> set (getMemberNames b) \<and>
      lookup (MergeJson a b) key =
        (case lookup b key of
           None \<Rightarrow> lookup a key
         | Some bv \<Rightarrow>
             (case lookup a key of
                Some av \<Rightarrow> if isObject av \<and> isObject bv then Some (MergeJson av bv) else Some bv
              | None \<Rightarrow> Some bv))) \<and>
   (wf_json a \<and> wf_json b \<longrightarrow> wf_json (MergeJson a b))"
proof (intro conjI impI)
  assume "\<not> isObject a \<or> \<not> isObject b"
  then show "MergeJson a b = a" by (rule MergeJson_noop)
next
  assume h: "isObject a \<and> isObject b \<and> wf_json b"
  then show "isObject (MergeJson a b)" by (simp add: isObject_MergeJson)
  from h have look: "\<And>k. lookup (MergeJson a b) k =
        (case lookup b k of
           None \<Rightarrow> lookup a k
         | Some bv \<Rightarrow>
             (case lookup a k of
                Some av \<Rightarrow> if isObject av \<and> isObject bv then Some (MergeJson av bv) else Some bv
              | None \<Rightarrow> Some bv))"
    by (simp add: lookup_MergeJson)
  show "lookup (MergeJson a b) key =
        (case lookup b key of
           None \<Rightarrow> lookup a key
         | Some bv \<Rightarrow>
             (case lookup a key of
                Some av \<Rightarrow> if isObject av \<and> isObject bv then Some (MergeJson av bv) else Some bv
              | None \<Rightarrow> Some bv))"
    by (rule look)
  have "k \<in> set (getMemberNames (MergeJson a b))
          \<longleftrightarrow> k \<in> set (getMemberNames a) \<union> set (getMemberNames b)" for k
    unfolding lookup_getMemberNames Un_iff look[of k]
    by (simp split: option.splits)
  then show "set (getMemberNames (MergeJson a b))
      = set (getMemberNames a) \<union> set (getMemberNames b)"
    by blast
next
  assume "wf_json a \<and> wf_json b"
  then show "wf_json (MergeJson a b)" by (simp add: wf_json_MergeJson)
qed

theorem MergeJson_contract_witness:
  "isObject scenario_default \<and> isObject scenario_user \<and> wf_json scenario_user \<and>
   lookup (MergeJson scenario_default scenario_user) ''UiOptions''
     = Some (JObject [(''a'', JInt 1), (''b'', JInt 2)]) \<and>
   lookup (MergeJson scenario_default scenario_user) ''Root'' = Some (JString ''/ui/'') \<and>
   lookup (MergeJson scenario_default scenario_user) ''Enable'' = Some (JBool True) \<and>
   set (getMemberNames (MergeJson scenario_default scenario_user))
     = {''Enable'', ''Root'', ''UiOptions''} \<and>
   lookup (MergeJson overwrite_default overwrite_user) ''U'' = Some (JInt 5) \<and>
   lookup (MergeJson overwrite_default overwrite_user) ''K''
     = Some (JObject [(''x'', JInt 1)]) \<and>
   lookup (MergeJson overwrite_default overwrite_user) ''L'' = Some (JArray [JInt 7]) \<and>
   lookup (MergeJson overwrite_default overwrite_user) ''N'' = Some (JBool False) \<and>
   MergeJson (JArray []) scenario_user = JArray [] \<and>
   MergeJson scenario_default (JString ''x'') = scenario_default"
proof -
  have inner: "MergeJson (JObject [(''a'', JInt 1)]) (JObject [(''b'', JInt 2)])
      = JObject [(''a'', JInt 1), (''b'', JInt 2)]"
    by code_simp
  from MergeJson_contract[of scenario_default scenario_user "''UiOptions''"]
    MergeJson_contract[of scenario_default scenario_user "''Root''"]
    MergeJson_contract[of scenario_default scenario_user "''Enable''"]
    MergeJson_contract[of overwrite_default overwrite_user "''U''"]
    MergeJson_contract[of overwrite_default overwrite_user "''K''"]
    MergeJson_contract[of overwrite_default overwrite_user "''L''"]
    MergeJson_contract[of overwrite_default overwrite_user "''N''"]
    MergeJson_contract[of "JArray []" scenario_user "''UiOptions''"]
    MergeJson_contract[of scenario_default "JString ''x''" "''UiOptions''"]
  show ?thesis
    by (simp add: scenario_default_def scenario_user_def overwrite_default_def
        overwrite_user_def isObject_def lookup_def getMemberNames_def inner insert_commute)
qed

text \<open>
  Claim C8. Merge is idempotent: merging the source a second time into the result of a merge
  leaves that result unchanged, for every pair of JSON documents.
\<close>

theorem MergeJson_idempotent:
  "wf_json a \<Longrightarrow> wf_json b \<Longrightarrow> MergeJson (MergeJson a b) b = MergeJson a b"
proof (induction b arbitrary: a rule: measure_induct_rule[where f = size])
  case (less b)
  show ?case
  proof (cases "isObject a \<and> isObject b")
    case False
    then show ?thesis by (auto simp: MergeJson_noop)
  next
    case True
    define r where "r = MergeJson a b"
    have r_obj: "isObject r" using True by (simp add: r_def isObject_MergeJson)
    have r_sorted: "sorted_wrt (<) (getMemberNames r)"
      using True less.prems(1) by (simp add: r_def MergeJson_object sorted_fold wf_json_keys)
    have "merge_step b k r = r" if k: "k \<in> set (getMemberNames b)" for k
    proof -
      let ?av = "subscript a k" and ?bv = "subscript b k"
      have r_k: "lookup r k = Some (merged_value ?av ?bv)"
        using True less.prems(2) k by (simp add: r_def lookup_MergeJson_in)
      then have sub: "subscript r k = merged_value ?av ?bv" by (simp add: subscript_def)
      have small: "size ?bv < size b" by (rule size_subscript[OF k])
      have wf: "wf_json ?av" "wf_json ?bv"
        using less.prems by (simp_all add: wf_json_subscript)
      have "merged_value (merged_value ?av ?bv) ?bv = merged_value ?av ?bv"
      proof (cases "isObject ?av \<and> isObject ?bv")
        case True
        then show ?thesis
          using less.IH[OF small wf] by (simp add: merged_value_def isObject_MergeJson)
      next
        case False
        then show ?thesis
          using MergeJson_self[OF wf(2)] by (auto simp: merged_value_def)
      qed
      then show ?thesis
        using r_obj r_sorted r_k by (simp add: merge_step_def sub assign_same)
    qed
    then have "fold (merge_step b) (getMemberNames b) r = r"
      by (simp add: fold_fixed)
    then show ?thesis
      using True r_obj by (simp add: r_def[symmetric] MergeJson_object)
  qed
qed

theorem MergeJson_idempotent_witness:
  "wf_json scenario_default \<and> wf_json scenario_user \<and>
   MergeJson (MergeJson scenario_default scenario_user) scenario_user
     = MergeJson scenario_default scenario_user"
proof -
  have a: "wf_json scenario_default" by (simp add: scenario_default_def)
  have b: "wf_json scenario_user" by (simp add: scenario_user_def)
  from a b MergeJson_idempotent[OF a b] show ?thesis by simp
qed

text \<open>
  Claim C9. For a default document \<open>a\<close> and an override \<open>b\<close>: a key path that is present in \<open>a\<close>
  and none of whose (non-empty) prefixes is present in \<open>b\<close> has, in the merged document, the
  value it has in \<open>a\<close>; and a member name that \<open>b\<close> does not mention is neither removed nor
  altered nor added by the merge.
\<close>

theorem MergeJson_frame:
  "(p \<noteq> [] \<and> at_path a p = Some v \<and>
      (\<forall>q \<in> set (prefixes p). q \<noteq> [] \<longrightarrow> at_path b q = None)
    \<longrightarrow> at_path (MergeJson a b) p = Some v) \<and>
   (lookup b k = None \<longrightarrow> lookup (MergeJson a b) k = lookup a k)"
proof (intro conjI impI)
  assume h: "p \<noteq> [] \<and> at_path a p = Some v \<and>
      (\<forall>q \<in> set (prefixes p). q \<noteq> [] \<longrightarrow> at_path b q = None)"
  then obtain k' ks where p: "p = k' # ks" by (cases p) auto
  have "[k'] \<in> set (prefixes p)" by (simp add: p)
  with h have "at_path b [k'] = None" by blast
  then have "lookup b k' = None" by (simp split: option.splits)
  then have "lookup (MergeJson a b) k' = lookup a k'" by (rule lookup_MergeJson_other)
  with h show "at_path (MergeJson a b) p = Some v" by (simp add: p)
next
  assume "lookup b k = None"
  then show "lookup (MergeJson a b) k = lookup a k" by (rule lookup_MergeJson_other)
qed

theorem MergeJson_frame_witness:
  "[''Root''] \<noteq> [] \<and> at_path scenario_default [''Root''] = Some (JString ''/ui/'') \<and>
   prefixes [''Root''] = [[], [''Root'']] \<and> at_path scenario_user [''Root''] = None \<and>
   at_path (MergeJson scenario_default scenario_user) [''Root''] = Some (JString ''/ui/'') \<and>
   lookup scenario_user ''Enable'' = None \<and>
   lookup (MergeJson scenario_default scenario_user) ''Enable'' = Some (JBool True)"
  using MergeJson_frame[of "[''Root'']" scenario_default "JString ''/ui/''" scenario_user
      "''Enable''"]
  by (simp add: scenario_default_def scenario_user_def lookup_def)

section \<open>Claims about the static responder\<close>

lemma dictionary_entries:
  "dictionary (b @ ''/'') =
     [(''OE2_API_BASE_URL'', b @ ''/api/''), (''OE2_BASE_URL'', b @ ''/app''),
      (''ORTHANC_API_BASE_URL'', ''/'')]"
  by (simp add: dictionary_def butlast_append)

text \<open>
  Claim C2. A GET request to the directory-asset route whose path matches no resource of the
  embedded store is answered with status 200, an empty body and the MIME type detected from
  the path; it is never answered with an error. (In the framework, substitution in the empty
  text gives the empty text, or fails with the framework's exception.)
\<close>

theorem ServeEmbeddedFolder_missing_resource:
  assumes "http_method request = OrthancPluginHttpMethod_Get"
    and "groups request = captured # others"
    and "st folder (''/'' @ captured) = None"
    and "SubstituteVariables fw [] (dictionary base) = Inr []
         \<or> (\<exists>code. SubstituteVariables fw [] (dictionary base) = Inl (OrthancException code))"
  shows "ServeEmbeddedFolder fw st base folder request
           = Inr (AnswerBuffer []
                   (EnumerationToString fw (AutodetectMimeType fw (''/'' @ captured))))
         \<and> (\<forall>r. ServeEmbeddedFolder fw st base folder request = Inr r \<longrightarrow> http_status r = 200)"
proof -
  have content: "GetDirectoryResource st folder (''/'' @ captured) = []"
    using assms(3) by (simp add: GetDirectoryResource_def)
  have "ServeEmbeddedFolder fw st base folder request
           = Inr (AnswerBuffer []
                   (EnumerationToString fw (AutodetectMimeType fw (''/'' @ captured))))"
    using assms(1,2,4) content
    by (auto simp: ServeEmbeddedFolder_def Let_def)
  then show ?thesis by simp
qed

theorem ServeEmbeddedFolder_missing_resource_witness:
  "ServeEmbeddedFolder example_framework example_store ''/ui/'' WEB_APPLICATION_ASSETS
     \<lparr>http_method = OrthancPluginHttpMethod_Get, groups = [''unknown/path'']\<rparr>
     = Inr (AnswerBuffer [] ''application/octet-stream'') \<and>
   ServeEmbeddedFolder example_framework example_store ''/ui/'' WEB_APPLICATION_ASSETS
     \<lparr>http_method = OrthancPluginHttpMethod_Get, groups = [''index.0000.js'']\<rparr>
     = Inr (AnswerBuffer [] ''application/javascript'')"
proof -
  have sub: "SubstituteVariables example_framework [] (dictionary ''/ui/'') = Inr []"
    by (simp add: example_framework_def dictionary_def)
  have a: "example_store WEB_APPLICATION_ASSETS (''/'' @ ''unknown/path'') = None"
    by (simp add: example_store_def)
  have b: "example_store WEB_APPLICATION_ASSETS (''/'' @ ''index.0000.js'') = None"
    by (simp add: example_store_def)
  from ServeEmbeddedFolder_missing_resource[of
      "\<lparr>http_method = OrthancPluginHttpMethod_Get, groups = [''unknown/path'']\<rparr>"
      "''unknown/path''" "[]" example_store WEB_APPLICATION_ASSETS example_framework "''/ui/''"]
    ServeEmbeddedFolder_missing_resource[of
      "\<lparr>http_method = OrthancPluginHttpMethod_Get, groups = [''index.0000.js'']\<rparr>"
      "''index.0000.js''" "[]" example_store WEB_APPLICATION_ASSETS example_framework "''/ui/''"]
    sub a b
  show ?thesis by (simp add: example_framework_def)
qed

text \<open>
  Claim C3, as stated: substitution is performed exactly when the detected MIME type is
  JavaScript and the file name of the requested path starts with \<open>index.\<close>. It fails for an
  index script in a subdirectory: the type is JavaScript, the file name is \<open>index.js\<close>, yet the
  content is served as it is (the substitution would have changed it).
\<close>

theorem ServeEmbeddedFolder_substitution_counterexample:
  "AutodetectMimeType example_framework ''/sub/index.js'' = MimeType_JavaScript \<and>
   path_filename ''/sub/index.js'' = ''index.js'' \<and>
   StartsWith (path_filename ''/sub/index.js'') ''index.'' \<and>
   GetDirectoryResource example_store WEB_APPLICATION_ASSETS ''/sub/index.js'' = ''${OE2_BASE_URL}'' \<and>
   SubstituteVariables example_framework ''${OE2_BASE_URL}'' (dictionary ''/ui/'') = Inr ''/ui/app'' \<and>
   ServeEmbeddedFolder example_framework example_store ''/ui/'' WEB_APPLICATION_ASSETS
     \<lparr>http_method = OrthancPluginHttpMethod_Get, groups = [''sub/index.js'']\<rparr>
     = Inr (AnswerBuffer ''${OE2_BASE_URL}'' ''application/javascript'')"
  by (simp add: ServeEmbeddedFolder_def example_framework_def example_store_def
      GetDirectoryResource_def StartsWith_def path_filename_def dictionary_def)

text \<open>
  Claim C3, amended: substitution is performed exactly when the detected MIME type is
  JavaScript and the requested path itself (the captured group, relative to the asset folder)
  starts with \<open>index.\<close>. When it is performed, the text is substituted with a dictionary of
  three tokens: the API base path is \<open>/\<close>, the application base path is the base URL without
  its trailing \<open>/\<close> followed by \<open>/app\<close>, and the API endpoint base path is the base URL without
  its trailing \<open>/\<close> followed by \<open>/api/\<close>; if the substitution fails with the framework's
  exception the content is served as it is. Otherwise the content is served as it is.
\<close>

theorem ServeEmbeddedFolder_substitution:
  assumes "http_method request = OrthancPluginHttpMethod_Get"
    and "groups request = captured # others"
    and "mimeType = AutodetectMimeType fw (''/'' @ captured)"
    and "content = GetDirectoryResource st folder (''/'' @ captured)"
  shows "ServeEmbeddedFolder fw st (b @ ''/'') folder request =
     (if mimeType = MimeType_JavaScript \<and> StartsWith captured ''index.''
      then (case SubstituteVariables fw content
                   [(''OE2_API_BASE_URL'', b @ ''/api/''), (''OE2_BASE_URL'', b @ ''/app''),
                    (''ORTHANC_API_BASE_URL'', ''/'')] of
              Inr replaced \<Rightarrow> Inr (AnswerBuffer replaced (EnumerationToString fw mimeType))
            | Inl (OrthancException code) \<Rightarrow>
                Inr (AnswerBuffer content (EnumerationToString fw mimeType))
            | Inl other \<Rightarrow> Inl other)
      else Inr (AnswerBuffer content (EnumerationToString fw mimeType)))"
proof -
  have "StartsWith (''/'' @ captured) ''/index.'' = StartsWith captured ''index.''"
    by (simp add: StartsWith_def)
  then show ?thesis
    using assms(1,2) unfolding assms(3,4)
    by (simp add: ServeEmbeddedFolder_def Let_def dictionary_entries del: append.simps)
qed

theorem ServeEmbeddedFolder_substitution_witness:
  "ServeEmbeddedFolder example_framework example_store (''/ui'' @ ''/'') WEB_APPLICATION_ASSETS
     \<lparr>http_method = OrthancPluginHttpMethod_Get, groups = [''index.4f2a.js'']\<rparr>
     = Inr (AnswerBuffer ''/ui/app'' ''application/javascript'') \<and>
   ServeEmbeddedFolder example_framework example_store (''/ui'' @ ''/'') WEB_APPLICATION_ASSETS
     \<lparr>http_method = OrthancPluginHttpMethod_Get, groups = [''logo.png'']\<rparr>
     = Inr (AnswerBuffer ''PNG'' ''application/octet-stream'')"
  using ServeEmbeddedFolder_substitution[of
      "\<lparr>http_method = OrthancPluginHttpMethod_Get, groups = [''index.4f2a.js'']\<rparr>"
      "''index.4f2a.js''" "[]" MimeType_JavaScript example_framework "''${OE2_BASE_URL}''"
      example_store WEB_APPLICATION_ASSETS "''/ui''"]
    ServeEmbeddedFolder_substitution[of
      "\<lparr>http_method = OrthancPluginHttpMethod_Get, groups = [''logo.png'']\<rparr>"
      "''logo.png''" "[]" MimeType_Binary example_framework "''PNG''"
      example_store WEB_APPLICATION_ASSETS "''/ui''"]
  by (simp add: example_framework_def example_store_def GetDirectoryResource_def StartsWith_def)

section \<open>Claims about initialization\<close>

lemma Root_is_malformed_iff:
  "Root_is_malformed s \<longleftrightarrow> s = [] \<or> hd s \<noteq> CHR ''/'' \<or> last s \<noteq> CHR ''/''"
  by (cases s) (auto simp: Root_is_malformed_def hd_conv_nth last_conv_nth)

lemma lookup_Some_at_key: "lookup cfg key = Some v \<Longrightarrow> at_key cfg key = Inr v"
  by (cases cfg) (simp_all add: at_key_def lookup_def subscript_def)

lemma at_key_operator_bool:
  "at_key cfg key = Inr v \<Longrightarrow> operator_bool v \<Longrightarrow> lookup cfg key = Some v \<and> \<not> isNull v"
  by (auto simp: at_key_def operator_bool_def subscript_def isNull_def
      split: if_splits option.splits)

text \<open>The outcome of initialization once the validation of the base URL is reached.\<close>

lemma OrthancPluginInitialize_enabled:
  assumes "ReadConfiguration d f = Inr cfg"
    and "lookup cfg ''Enable'' = Some enable" "\<not> isNull enable"
    and "asString (subscript cfg ''Root'') = Inr url"
  shows "Root_is_malformed url \<Longrightarrow>
           fst (OrthancPluginInitialize True d f) = - 1 \<and>
           baseUrl (snd (OrthancPluginInitialize True d f)) = url \<and>
           restCallbacks (snd (OrthancPluginInitialize True d f)) = [] \<and>
           rootUri (snd (OrthancPluginInitialize True d f)) = None"
    and "\<not> Root_is_malformed url \<Longrightarrow>
           asBool (subscript cfg ''ReplaceDefaultExplorer'') = Inr replace \<Longrightarrow>
           fst (OrthancPluginInitialize True d f) = 0 \<and>
           baseUrl (snd (OrthancPluginInitialize True d f)) = url \<and>
           rootUri (snd (OrthancPluginInitialize True d f)) = Some (url @ ''app/'') \<and>
           length (restCallbacks (snd (OrthancPluginInitialize True d f)))
             = (if replace then 7 else 6)"
    and "\<not> Root_is_malformed url \<Longrightarrow>
           baseUrl (snd (OrthancPluginInitialize True d f)) = url \<and>
           rootUri (snd (OrthancPluginInitialize True d f)) = Some (url @ ''app/'') \<and>
           take 6 (map fst (restCallbacks (snd (OrthancPluginInitialize True d f))))
             = [url @ ''app/assets/(.*)'', url @ ''app/index.html'', url @ ''app/favicon.ico'',
                url @ ''app/(.*)'', url @ ''app'', url @ ''api/configuration'']"
  using assms lookup_Some_at_key[OF assms(2)]
  by (simp_all add: OrthancPluginInitialize_def operator_bool_def Let_def
      subscript_resolveReference initial_state_def split: sum.splits)

text \<open>
  When the test of \<open>Enable\<close> at line 377 fails, the else branch runs: initialization returns 0
  with nothing registered, whatever the \<open>Root\<close> string is.
\<close>

lemma OrthancPluginInitialize_disabled:
  assumes "ReadConfiguration d f = Inr cfg"
    and "at_key cfg ''Enable'' = Inr enable" "\<not> operator_bool enable"
  shows "fst (OrthancPluginInitialize True d f) = 0 \<and>
         restCallbacks (snd (OrthancPluginInitialize True d f)) = [] \<and>
         rootUri (snd (OrthancPluginInitialize True d f)) = None"
  using assms by (simp add: OrthancPluginInitialize_def Let_def initial_state_def)

text \<open>
  The reads by name leave their members behind in the global configuration: after a
  successful initialization it holds all three names, as null where they were missing.
\<close>

lemma OrthancPluginInitialize_members:
  assumes "ReadConfiguration d f = Inr cfg"
    and "lookup cfg ''Enable'' = Some enable" "\<not> isNull enable"
    and "asString (subscript cfg ''Root'') = Inr url" "\<not> Root_is_malformed url"
    and "asBool (subscript cfg ''ReplaceDefaultExplorer'') = Inr replace"
  shows "pluginJsonConfiguration (snd (OrthancPluginInitialize True d f))
           = resolveReference (resolveReference (resolveReference cfg ''Enable'') ''Root'')
               ''ReplaceDefaultExplorer''"
  using assms lookup_Some_at_key[OF assms(2)]
  by (simp add: OrthancPluginInitialize_def operator_bool_def Let_def
      subscript_resolveReference initial_state_def)

text \<open>
  Claim C4. At startup the configured \<open>Root\<close> string is validated (lines 379--387; the
  validation is reached when the host's version check has passed and the test of \<open>Enable\<close>
  at line 377 has succeeded). Every string that does not start with \<open>/\<close> or does not end with
  \<open>/\<close> is a fatal error: initialization returns -1 and no route and no root URI is
  registered. Every other string passes: the routes and the root URI are registered under it.
  In particular \<open>/ui/\<close> is accepted while \<open>ui/\<close>, \<open>/ui\<close> and the empty string are rejected.
\<close>

theorem Root_rejection:
  "(ReadConfiguration d f = Inr cfg \<and> at_key cfg ''Enable'' = Inr enable \<and> operator_bool enable \<and>
    asString (subscript cfg ''Root'') = Inr url
    \<longrightarrow>
      (url = [] \<or> hd url \<noteq> CHR ''/'' \<or> last url \<noteq> CHR ''/''
        \<longrightarrow> fst (OrthancPluginInitialize True d f) = - 1 \<and>
            restCallbacks (snd (OrthancPluginInitialize True d f)) = [] \<and>
            rootUri (snd (OrthancPluginInitialize True d f)) = None) \<and>
      (url \<noteq> [] \<and> hd url = CHR ''/'' \<and> last url = CHR ''/''
        \<longrightarrow> baseUrl (snd (OrthancPluginInitialize True d f)) = url \<and>
            rootUri (snd (OrthancPluginInitialize True d f)) = Some (url @ ''app/'') \<and>
            take 6 (map fst (restCallbacks (snd (OrthancPluginInitialize True d f))))
              = [url @ ''app/assets/(.*)'', url @ ''app/index.html'', url @ ''app/favicon.ico'',
                 url @ ''app/(.*)'', url @ ''app'', url @ ''api/configuration''] \<and>
            (asBool (subscript cfg ''ReplaceDefaultExplorer'') = Inr replace
               \<longrightarrow> fst (OrthancPluginInitialize True d f) = 0))) \<and>
   \<not> Root_is_malformed ''/ui/'' \<and> Root_is_malformed ''ui/'' \<and> Root_is_malformed ''/ui'' \<and>
   Root_is_malformed []"
proof (intro conjI impI)
  assume h: "ReadConfiguration d f = Inr cfg \<and> at_key cfg ''Enable'' = Inr enable \<and>
    operator_bool enable \<and> asString (subscript cfg ''Root'') = Inr url"
  then have a: "ReadConfiguration d f = Inr cfg" "lookup cfg ''Enable'' = Some enable"
      "\<not> isNull enable" "asString (subscript cfg ''Root'') = Inr url"
    using at_key_operator_bool[of cfg "''Enable''" enable] by simp_all
  {
    assume "url = [] \<or> hd url \<noteq> CHR ''/'' \<or> last url \<noteq> CHR ''/''"
    then have bad: "Root_is_malformed url" by (simp add: Root_is_malformed_iff)
    note r = OrthancPluginInitialize_enabled(1)[OF a bad]
    from r show "fst (OrthancPluginInitialize True d f) = - 1" by simp
    from r show "restCallbacks (snd (OrthancPluginInitialize True d f)) = []" by simp
    from r show "rootUri (snd (OrthancPluginInitialize True d f)) = None" by simp
  }
  {
    assume "url \<noteq> [] \<and> hd url = CHR ''/'' \<and> last url = CHR ''/''"
    then have good: "\<not> Root_is_malformed url" by (simp add: Root_is_malformed_iff)
    note r = OrthancPluginInitialize_enabled(3)[OF a good]
    from r show "baseUrl (snd (OrthancPluginInitialize True d f)) = url" by simp
    from r show "rootUri (snd (OrthancPluginInitialize True d f)) = Some (url @ ''app/'')"
      by simp
    from r show "take 6 (map fst (restCallbacks (snd (OrthancPluginInitialize True d f))))
              = [url @ ''app/assets/(.*)'', url @ ''app/index.html'', url @ ''app/favicon.ico'',
                 url @ ''app/(.*)'', url @ ''app'', url @ ''api/configuration'']" by simp
    assume "asBool (subscript cfg ''ReplaceDefaultExplorer'') = Inr replace"
    from OrthancPluginInitialize_enabled(2)[OF a good this]
    show "fst (OrthancPluginInitialize True d f) = 0" by simp
  }
qed (simp_all add: Root_is_malformed_def)

lemma startup_configuration:
  "ReadConfiguration (JObject [(''OrthancExplorer2'', scenario_default)])
     (JObject [(''OrthancExplorer2'', JObject [(''Root'', JString url)])])
   = Inr (JObject [(''Enable'', JBool True), (''Root'', JString url),
                   (''UiOptions'', JObject [(''a'', JInt 1)])])"
proof -
  have "MergeJson scenario_default (JObject [(''Root'', JString url)])
      = JObject [(''Enable'', JBool True), (''Root'', JString url),
                 (''UiOptions'', JObject [(''a'', JInt 1)])]"
    by (simp add: MergeJson_object isObject_def scenario_default_def getMemberNames_def
        merge_step_def merged_value_def assign_def subscript_def lookup_def)
  then show ?thesis
    by (simp add: ReadConfiguration_def at_key_def subscript_def lookup_def IsSection_def
        GetSection_def isObject_def)
qed

theorem Root_rejection_witness:
  "fst (startup_with_Root ''ui/'') = - 1 \<and> restCallbacks (snd (startup_with_Root ''ui/'')) = [] \<and>
   fst (startup_with_Root ''/ui'') = - 1 \<and> restCallbacks (snd (startup_with_Root ''/ui'')) = [] \<and>
   fst (startup_with_Root []) = - 1 \<and> restCallbacks (snd (startup_with_Root [])) = [] \<and>
   fst (startup_with_Root ''/ui/'') = 0 \<and>
   baseUrl (snd (startup_with_Root ''/ui/'')) = ''/ui/'' \<and>
   rootUri (snd (startup_with_Root ''/ui/'')) = Some ''/ui/app/'' \<and>
   take 6 (map fst (restCallbacks (snd (startup_with_Root ''/ui/''))))
     = [''/ui/app/assets/(.*)'', ''/ui/app/index.html'', ''/ui/app/favicon.ico'',
        ''/ui/app/(.*)'', ''/ui/app'', ''/ui/api/configuration'']"
proof -
  let ?d = "JObject [(''OrthancExplorer2'', scenario_default)]"
  note r1 = Root_rejection[of ?d
      "JObject [(''OrthancExplorer2'', JObject [(''Root'', JString ''ui/'')])]"
      "JObject [(''Enable'', JBool True), (''Root'', JString ''ui/''),
                (''UiOptions'', JObject [(''a'', JInt 1)])]" "JBool True" "''ui/''" False]
  note r2 = Root_rejection[of ?d
      "JObject [(''OrthancExplorer2'', JObject [(''Root'', JString ''/ui'')])]"
      "JObject [(''Enable'', JBool True), (''Root'', JString ''/ui''),
                (''UiOptions'', JObject [(''a'', JInt 1)])]" "JBool True" "''/ui''" False]
  note r3 = Root_rejection[of ?d
      "JObject [(''OrthancExplorer2'', JObject [(''Root'', JString [])])]"
      "JObject [(''Enable'', JBool True), (''Root'', JString []),
                (''UiOptions'', JObject [(''a'', JInt 1)])]" "JBool True" "[]" False]
  note r4 = Root_rejection[of ?d
      "JObject [(''OrthancExplorer2'', JObject [(''Root'', JString ''/ui/'')])]"
      "JObject [(''Enable'', JBool True), (''Root'', JString ''/ui/''),
                (''UiOptions'', JObject [(''a'', JInt 1)])]" "JBool True" "''/ui/''" False]
  from r1 r2 r3 r4 show ?thesis
    by (simp add: startup_with_Root_def startup_configuration at_key_def operator_bool_def
        isNull_def subscript_def lookup_def)
qed



section \<open>Properties of the resolver\<close>

lemma set_Enabled_assign:
  "set_Enabled (assign pc name info) name x = assign pc name (assign info ''Enabled'' (JBool x))"
  by (simp add: set_Enabled_def subscript_assign assign_overwrite)

lemma plugin_round_record:
  assumes "asString element = Inr name"
  shows "plugin_round host cfg pre element pc =
     (if name = ''explorer.js'' then Inr pc
      else (case plugin_record host cfg pre name of
              Inl e \<Rightarrow> Inl e
            | Inr r \<Rightarrow> Inr (assign pc name r)))"
  using assms
  by (simp add: plugin_round_def plugin_record_def Let_def set_Enabled_assign assign_overwrite
      split: sum.splits option.splits)

text \<open>
  The loop invariant: after the loop, a name that the list reports (other than the one that is
  skipped) holds its record, and every other name holds what it held before.
\<close>

lemma for_each_plugin_round:
  "for_each (plugin_round host cfg pre) es acc = Inr out \<Longrightarrow>
   lookup out k =
     (if k \<noteq> ''explorer.js'' \<and> Inr k \<in> asString ` set es
      then (case plugin_record host cfg pre k of Inr r \<Rightarrow> Some r | Inl e \<Rightarrow> None)
      else lookup acc k)"
proof (induction es arbitrary: acc)
  case Nil
  then show ?case by simp
next
  case (Cons x xs)
  from Cons.prems obtain acc' where
    round: "plugin_round host cfg pre x acc = Inr acc'" and
    rest: "for_each (plugin_round host cfg pre) xs acc' = Inr out"
    by (auto split: sum.splits)
  from round obtain n where n: "asString x = Inr n"
    by (cases "asString x") (auto simp: plugin_round_def)
  note IH = Cons.IH[OF rest]
  show ?case
  proof (cases "n = ''explorer.js''")
    case True
    with round n have "acc' = acc" by (simp add: plugin_round_record)
    with IH n True show ?thesis by auto
  next
    case False
    with round n obtain r where r: "plugin_record host cfg pre n = Inr r"
      and acc': "acc' = assign acc n r"
      by (auto simp: plugin_round_record split: sum.splits)
    show ?thesis
    proof (cases "k = n")
      case True
      with IH n r acc' False show ?thesis by (auto simp: lookup_assign)
    next
      case k: False
      with n have "Inr k \<in> asString ` set (x # xs) \<longleftrightarrow> Inr k \<in> asString ` set xs"
        by auto
      with IH acc' k show ?thesis by (simp add: lookup_assign)
    qed
  qed
qed

lemma fold_append_prefix:
  "fold (\<lambda>component p. p @ s) components init = init @ concat (replicate (length components) s)"
  by (induction components arbitrary: init) (simp_all add: replicate_app_Cons_same)

text \<open>What a successful run of the resolver says about a reported plugin.\<close>

lemma GetPluginsConfiguration_lookup:
  assumes "GetPluginsConfiguration fw host cfg base = Inr out"
    and "RestApiGet host ''/plugins'' = JArray pluginList"
  shows "\<exists>components. SplitUriComponents fw base = Inr components \<and>
     (\<forall>k. lookup out k =
       (if k \<noteq> ''explorer.js'' \<and> Inr k \<in> asString ` set pluginList
        then (case plugin_record host cfg (concat (replicate (length components) ''../'')) k of
                Inr r \<Rightarrow> Some r | Inl e \<Rightarrow> None)
        else None))"
proof -
  from assms(1) obtain components where c: "SplitUriComponents fw base = Inr components"
    by (cases "SplitUriComponents fw base") (auto simp: GetPluginsConfiguration_def)
  let ?pre = "concat (replicate (length components) ''../'')"
  have "for_each (plugin_round host cfg ?pre) pluginList JNull = Inr out"
    using assms c
    by (simp add: GetPluginsConfiguration_def Let_def fold_append_prefix del: replicate.simps)
  from for_each_plugin_round[OF this] c show ?thesis
    by (auto simp: lookup_def)
qed

lemma reported_record:
  assumes "GetPluginsConfiguration fw host cfg base = Inr out"
    and "RestApiGet host ''/plugins'' = JArray pluginList"
    and "SplitUriComponents fw base = Inr components"
    and "JString name \<in> set pluginList" "name \<noteq> ''explorer.js''"
  shows "\<exists>info. rewrite_RootUri (concat (replicate (length components) ''../''))
                  (GetPluginInfo host name) = Inr info \<and>
           lookup out name =
             Some (assign info ''Enabled''
               (JBool (case enablement_override cfg name of Some x \<Rightarrow> x | None \<Rightarrow> True)))"
proof -
  from GetPluginsConfiguration_lookup[OF assms(1,2)] assms(3)
  have all: "\<And>k. lookup out k =
       (if k \<noteq> ''explorer.js'' \<and> Inr k \<in> asString ` set pluginList
        then (case plugin_record host cfg (concat (replicate (length components) ''../'')) k of
                Inr r \<Rightarrow> Some r | Inl e \<Rightarrow> None)
        else None)"
    by auto
  have "Inr name \<in> asString ` set pluginList"
    using assms(4) by (metis asString.simps(2) image_eqI)
  with all[of name] assms(5)
  have *: "lookup out name =
       (case plugin_record host cfg (concat (replicate (length components) ''../'')) name of
          Inr r \<Rightarrow> Some r | Inl e \<Rightarrow> None)"
    by simp
  have "lookup out name \<noteq> None"
  proof -
    have "\<exists>acc. for_each (plugin_round host cfg (concat (replicate (length components) ''../'')))
            pluginList acc = Inr out"
      using assms(1,2,3)
      by (auto simp: GetPluginsConfiguration_def Let_def fold_append_prefix
          simp del: replicate.simps)
    then obtain acc where run: "for_each (plugin_round host cfg
        (concat (replicate (length components) ''../''))) pluginList acc = Inr out" ..
    have "plugin_record host cfg (concat (replicate (length components) ''../'')) name \<noteq> Inl e"
      for e
      using run assms(4,5)
    proof (induction pluginList arbitrary: acc)
      case Nil
      then show ?case by simp
    next
      case (Cons x xs)
      from Cons.prems(1) obtain acc' where
        round: "plugin_round host cfg (concat (replicate (length components) ''../'')) x acc
                  = Inr acc'" and
        rest: "for_each (plugin_round host cfg (concat (replicate (length components) ''../'')))
                 xs acc' = Inr out"
        by (auto split: sum.splits)
      show ?case
      proof (cases "x = JString name")
        case True
        with round Cons.prems(3) show ?thesis
          by (auto simp: plugin_round_record split: sum.splits)
      next
        case False
        with Cons.prems(2) have "JString name \<in> set xs" by simp
        from Cons.IH[OF rest this Cons.prems(3)] show ?thesis .
      qed
    qed
    with * show ?thesis by (auto split: sum.splits)
  qed
  with * obtain r where r: "plugin_record host cfg
      (concat (replicate (length components) ''../'')) name = Inr r" "lookup out name = Some r"
    by (auto split: sum.splits)
  then show ?thesis
    by (auto simp: plugin_record_def split: sum.splits)
qed

lemma enablement_override_None:
  "name \<notin> set override_table \<Longrightarrow> enablement_override cfg name = None"
  by (simp add: override_table_def enablement_override_def)

lemma enablement_override_rule:
  assumes "(name, S, K) \<in> set section_key_rules"
  shows "enablement_override cfg name = Some (IsPluginEnabledInConfiguration cfg S K)"
proof -
  from assms have
    "name = ''dicom-web'' \<and> S = ''DicomWeb'' \<and> K = ''Enable'' \<or>
     name = ''gdcm'' \<and> S = ''Gdcm'' \<and> K = ''Enable'' \<or>
     name = ''mysql-index'' \<and> S = ''MySQL'' \<and> K = ''EnableIndex'' \<or>
     name = ''mysql-storage'' \<and> S = ''MySQL'' \<and> K = ''EnableStorage'' \<or>
     name = ''odbc-index'' \<and> S = ''PostgreSQL'' \<and> K = ''EnableIndex'' \<or>
     name = ''odbc-storage'' \<and> S = ''PostgreSQL'' \<and> K = ''EnableStorage'' \<or>
     name = ''postgresql-index'' \<and> S = ''Odbc'' \<and> K = ''EnableIndex'' \<or>
     name = ''postgresql-storage'' \<and> S = ''Odbc'' \<and> K = ''EnableStorage'' \<or>
     name = ''tcia'' \<and> S = ''Tcia'' \<and> K = ''Enable'' \<or>
     name = ''worklists'' \<and> S = ''Worklists'' \<and> K = ''Enable''"
    unfolding section_key_rules_def by simp
  then show ?thesis
    by (elim disjE conjE) (simp_all add: enablement_override_def)
qed

lemma IsPluginEnabledInConfiguration_iff:
  "IsPluginEnabledInConfiguration cfg S K
     \<longleftrightarrow> IsSection cfg S \<and> (\<exists>v. lookup (subscript cfg S) K = Some v \<and> truthy v)"
  by (auto simp: IsPluginEnabledInConfiguration_def GetBooleanValue_def GetSection_def
      split: option.splits)

lemma rewrite_RootUri_cases:
  assumes "rewrite_RootUri pre info = Inr info'"
  shows "(lookup info ''RootUri'' = None \<longrightarrow> info' = info) \<and>
         (\<forall>r s. lookup info ''RootUri'' = Some r \<and> asString r = Inr s \<longrightarrow>
            (if s = [] then info' = info
             else info' = assign info ''RootUri'' (JString (pre @ s))))"
  using assms
  by (auto simp: rewrite_RootUri_def isMember_def subscript_def
      split: if_splits sum.splits bool.splits option.splits)


text \<open>
  The resolver returns a result whenever the base URL splits into components, the host reports
  a list of names, and every info record is null or an object whose root URI, if any, is a
  scalar.
\<close>

lemma GetPluginsConfiguration_returns:
  assumes "SplitUriComponents fw base = Inr components"
    and "RestApiGet host ''/plugins'' = JArray (map JString names)"
    and "\<forall>n \<in> set names. n \<noteq> ''explorer.js'' \<longrightarrow>
           (isNull (GetPluginInfo host n) \<or> isObject (GetPluginInfo host n)) \<and>
           (\<forall>e. asString (subscript (GetPluginInfo host n) ''RootUri'') \<noteq> Inl e)"
  shows "\<exists>out. GetPluginsConfiguration fw host cfg base = Inr out"
proof -
  let ?pre = "concat (replicate (length components) ''../'')"
  have rec_ok: "\<exists>r. plugin_record host cfg ?pre n = Inr r"
    if "n \<in> set names" "n \<noteq> ''explorer.js''" for n
  proof -
    from assms(3) that have
      typed: "isNull (GetPluginInfo host n) \<or> isObject (GetPluginInfo host n)" and
      uri: "\<And>e. asString (subscript (GetPluginInfo host n) ''RootUri'') \<noteq> Inl e"
      by auto
    from uri obtain s where "asString (subscript (GetPluginInfo host n) ''RootUri'') = Inr s"
      by (cases "asString (subscript (GetPluginInfo host n) ''RootUri'')") auto
    with typed have "\<exists>i. rewrite_RootUri ?pre (GetPluginInfo host n) = Inr i"
      by (auto simp: rewrite_RootUri_def isMember_def isNull_def isObject_def
          split: bool.splits)
    then show ?thesis by (auto simp: plugin_record_def)
  qed
  have "\<exists>out. for_each (plugin_round host cfg ?pre) (map JString ns) acc = Inr out"
    if "set ns \<subseteq> set names" for ns acc
    using that
  proof (induction ns arbitrary: acc)
    case Nil
    then show ?case by simp
  next
    case (Cons n ns)
    show ?case
    proof (cases "n = ''explorer.js''")
      case True
      with Cons show ?thesis by (simp add: plugin_round_record)
    next
      case False
      with Cons.prems rec_ok[of n] obtain r where "plugin_record host cfg ?pre n = Inr r"
        by auto
      with False Cons show ?thesis by (simp add: plugin_round_record)
    qed
  qed
  from this[of names JNull] assms(1,2) show ?thesis
    by (simp add: GetPluginsConfiguration_def Let_def fold_append_prefix del: replicate.simps)
qed

lemma example_resolver_run:
  "GetPluginsConfiguration example_framework example_host example_configuration ''/ui/'' =
     Inr example_output"
  unfolding example_output_def by code_simp

lemma example_resolver_run_unconfigured:
  "GetPluginsConfiguration example_framework example_host (JObject []) ''/ui/'' =
     Inr example_output_unconfigured"
  unfolding example_output_unconfigured_def by code_simp

lemma example_host_plugins:
  "RestApiGet example_host ''/plugins''
     = JArray [JString ''dicom-web'', JString ''explorer.js'', JString ''housekeeper'']"
  by (simp add: RestApiGet_def example_host_def)

section \<open>Claims about the resolver\<close>

text \<open>
  Claim C5. For every plugin name whose rule has the form ``section \<open>S\<close> and key \<open>K\<close>'' (such as
  \<open>dicom-web\<close> with section \<open>DicomWeb\<close> and key \<open>Enable\<close>), the resolver's output has
  \<open>Enabled\<close> true if and only if the configuration has the section \<open>S\<close> and the key \<open>K\<close> in it
  is truthy, and false in every other case. An absent section gives ``not enabled'' and no
  error: the test is a total Boolean function.
\<close>

theorem section_key_rule_Enabled:
  "(GetPluginsConfiguration fw host cfg base = Inr out \<and>
    RestApiGet host ''/plugins'' = JArray pluginList \<and>
    JString name \<in> set pluginList \<and> (name, S, K) \<in> set section_key_rules
    \<longrightarrow> subscript (subscript out name) ''Enabled''
          = JBool (IsSection cfg S \<and> (\<exists>v. lookup (subscript cfg S) K = Some v \<and> truthy v))) \<and>
   (\<not> IsSection cfg S \<longrightarrow> \<not> IsPluginEnabledInConfiguration cfg S K) \<and>
   (''dicom-web'', ''DicomWeb'', ''Enable'') \<in> set section_key_rules"
proof (intro conjI impI)
  assume h: "GetPluginsConfiguration fw host cfg base = Inr out \<and>
    RestApiGet host ''/plugins'' = JArray pluginList \<and>
    JString name \<in> set pluginList \<and> (name, S, K) \<in> set section_key_rules"
  then have rule: "enablement_override cfg name = Some (IsPluginEnabledInConfiguration cfg S K)"
    by (simp add: enablement_override_rule)
  from h have "name \<in> set override_table"
    by (auto simp: section_key_rules_def override_table_def)
  then have name: "name \<noteq> ''explorer.js''"
    by (auto simp: override_table_def)
  from h obtain components where "SplitUriComponents fw base = Inr components"
    using GetPluginsConfiguration_lookup by blast
  with h name obtain info where
    "lookup out name =
       Some (assign info ''Enabled''
         (JBool (case enablement_override cfg name of Some x \<Rightarrow> x | None \<Rightarrow> True)))"
    using reported_record by blast
  then have "subscript out name =
       assign info ''Enabled''
         (JBool (case enablement_override cfg name of Some x \<Rightarrow> x | None \<Rightarrow> True))"
    by (simp add: subscript_def)
  with rule show "subscript (subscript out name) ''Enabled''
      = JBool (IsSection cfg S \<and> (\<exists>v. lookup (subscript cfg S) K = Some v \<and> truthy v))"
    by (simp add: subscript_assign IsPluginEnabledInConfiguration_iff)
next
  assume "\<not> IsSection cfg S"
  then show "\<not> IsPluginEnabledInConfiguration cfg S K"
    by (simp add: IsPluginEnabledInConfiguration_def)
next
  show "(''dicom-web'', ''DicomWeb'', ''Enable'') \<in> set section_key_rules"
    by (simp add: section_key_rules_def)
qed

theorem section_key_rule_Enabled_witness:
  "GetPluginsConfiguration example_framework example_host example_configuration ''/ui/''
     = Inr example_output \<and>
   IsSection example_configuration ''DicomWeb'' \<and>
   lookup (subscript example_configuration ''DicomWeb'') ''Enable'' = Some (JBool True) \<and>
   subscript (subscript example_output ''dicom-web'') ''Enabled'' = JBool True \<and>
   GetPluginsConfiguration example_framework example_host (JObject []) ''/ui/''
     = Inr example_output_unconfigured \<and>
   \<not> IsSection (JObject []) ''DicomWeb'' \<and>
   subscript (subscript example_output_unconfigured ''dicom-web'') ''Enabled'' = JBool False \<and>
   \<not> IsPluginEnabledInConfiguration (JObject []) ''DicomWeb'' ''Enable''"
proof -
  have sec: "IsSection example_configuration ''DicomWeb''"
      "lookup (subscript example_configuration ''DicomWeb'') ''Enable'' = Some (JBool True)"
      "\<not> IsSection (JObject []) ''DicomWeb''"
    by (simp_all add: IsSection_def example_configuration_def lookup_def subscript_def
        isObject_def)
  from section_key_rule_Enabled[of example_framework example_host example_configuration
      "''/ui/''" example_output
      "[JString ''dicom-web'', JString ''explorer.js'', JString ''housekeeper'']"
      "''dicom-web''" "''DicomWeb''" "''Enable''"]
    section_key_rule_Enabled[of example_framework example_host "JObject []"
      "''/ui/''" example_output_unconfigured
      "[JString ''dicom-web'', JString ''explorer.js'', JString ''housekeeper'']"
      "''dicom-web''" "''DicomWeb''" "''Enable''"]
    sec example_resolver_run example_resolver_run_unconfigured example_host_plugins
  show ?thesis
    by (simp add: section_key_rules_def)
qed

text \<open>
  Claim C6. For every plugin whose info record from the host has a non-empty \<open>RootUri\<close>, the
  record in the resolver's output has that value prefixed with exactly \<open>N\<close> copies of \<open>../\<close>,
  where \<open>N\<close> is the number of components of the configured base URL; a record with no
  \<open>RootUri\<close> or an empty one keeps what it had.
\<close>

theorem RootUri_rewritten:
  "GetPluginsConfiguration fw host cfg base = Inr out \<and>
   RestApiGet host ''/plugins'' = JArray pluginList \<and>
   SplitUriComponents fw base = Inr components \<and>
   JString name \<in> set pluginList \<and> name \<noteq> ''explorer.js''
   \<longrightarrow>
   (\<forall>r s. lookup (GetPluginInfo host name) ''RootUri'' = Some r \<and> asString r = Inr s \<and> s \<noteq> []
      \<longrightarrow> lookup (subscript out name) ''RootUri''
            = Some (JString (concat (replicate (length components) ''../'') @ s))) \<and>
   (lookup (GetPluginInfo host name) ''RootUri'' = None
      \<longrightarrow> lookup (subscript out name) ''RootUri'' = None) \<and>
   (\<forall>r. lookup (GetPluginInfo host name) ''RootUri'' = Some r \<and> asString r = Inr []
      \<longrightarrow> lookup (subscript out name) ''RootUri'' = Some r)"
proof (intro impI)
  assume h: "GetPluginsConfiguration fw host cfg base = Inr out \<and>
   RestApiGet host ''/plugins'' = JArray pluginList \<and>
   SplitUriComponents fw base = Inr components \<and>
   JString name \<in> set pluginList \<and> name \<noteq> ''explorer.js''"
  let ?pre = "concat (replicate (length components) ''../'')"
  let ?info = "GetPluginInfo host name"
  from h obtain info' where
    rw: "rewrite_RootUri ?pre ?info = Inr info'" and
    "lookup out name =
       Some (assign info' ''Enabled''
         (JBool (case enablement_override cfg name of Some x \<Rightarrow> x | None \<Rightarrow> True)))"
    using reported_record by blast
  then have same: "lookup (subscript out name) ''RootUri'' = lookup info' ''RootUri''"
    by (simp add: subscript_def lookup_assign)
  note cases = rewrite_RootUri_cases[OF rw]
  show "(\<forall>r s. lookup ?info ''RootUri'' = Some r \<and> asString r = Inr s \<and> s \<noteq> []
      \<longrightarrow> lookup (subscript out name) ''RootUri'' = Some (JString (?pre @ s))) \<and>
   (lookup ?info ''RootUri'' = None \<longrightarrow> lookup (subscript out name) ''RootUri'' = None) \<and>
   (\<forall>r. lookup ?info ''RootUri'' = Some r \<and> asString r = Inr []
      \<longrightarrow> lookup (subscript out name) ''RootUri'' = Some r)"
  proof (intro conjI allI impI)
    fix r s
    assume "lookup ?info ''RootUri'' = Some r \<and> asString r = Inr s \<and> s \<noteq> []"
    with cases have "info' = assign ?info ''RootUri'' (JString (?pre @ s))"
      by (metis (full_types))
    then show "lookup (subscript out name) ''RootUri'' = Some (JString (?pre @ s))"
      by (simp add: same lookup_assign)
  next
    assume "lookup ?info ''RootUri'' = None"
    with cases show "lookup (subscript out name) ''RootUri'' = None"
      by (simp add: same)
  next
    fix r
    assume a: "lookup ?info ''RootUri'' = Some r \<and> asString r = Inr []"
    with cases have "info' = ?info" by (metis (full_types))
    with a show "lookup (subscript out name) ''RootUri'' = Some r"
      by (simp add: same)
  qed
qed

theorem RootUri_rewritten_witness:
  "GetPluginsConfiguration example_framework example_host example_configuration ''/ui/''
     = Inr example_output \<and>
   SplitUriComponents example_framework ''/ui/'' = Inr [''ui''] \<and>
   lookup (GetPluginInfo example_host ''dicom-web'') ''RootUri''
     = Some (JString ''../dicom-web/app/'') \<and>
   lookup (subscript example_output ''dicom-web'') ''RootUri''
     = Some (JString (''../'' @ ''../dicom-web/app/'')) \<and>
   lookup (GetPluginInfo example_host ''housekeeper'') ''RootUri'' = None \<and>
   lookup (subscript example_output ''housekeeper'') ''RootUri'' = None"
proof -
  have split: "SplitUriComponents example_framework ''/ui/'' = Inr [''ui'']"
    by (simp add: example_framework_def StartsWith_def)
  have info: "lookup (GetPluginInfo example_host ''dicom-web'') ''RootUri''
      = Some (JString ''../dicom-web/app/'')"
    "lookup (GetPluginInfo example_host ''housekeeper'') ''RootUri'' = None"
    by (simp_all add: GetPluginInfo_def RestApiGet_def example_host_def lookup_def)
  from RootUri_rewritten[of example_framework example_host example_configuration "''/ui/''"
      example_output
      "[JString ''dicom-web'', JString ''explorer.js'', JString ''housekeeper'']"
      "[''ui'']" "''dicom-web''"]
    RootUri_rewritten[of example_framework example_host example_configuration "''/ui/''"
      example_output
      "[JString ''dicom-web'', JString ''explorer.js'', JString ''housekeeper'']"
      "[''ui'']" "''housekeeper''"]
    split info example_resolver_run example_host_plugins
  show ?thesis
    by simp
qed

text \<open>
  Claim C7. Every plugin name that the host's list reports, other than the hardcoded
  \<open>explorer.js\<close>, and that matches no entry of the override table has \<open>Enabled\<close> true in the
  resolver's output; the name \<open>explorer.js\<close> never appears in the output.
\<close>

theorem unlisted_plugin_Enabled:
  "(GetPluginsConfiguration fw host cfg base = Inr out \<and>
    RestApiGet host ''/plugins'' = JArray pluginList \<and>
    JString name \<in> set pluginList \<and> name \<noteq> ''explorer.js'' \<and> name \<notin> set override_table
    \<longrightarrow> (\<exists>entry. lookup out name = Some entry \<and> lookup entry ''Enabled'' = Some (JBool True)))
   \<and> (GetPluginsConfiguration fw host cfg base = Inr out \<longrightarrow> lookup out ''explorer.js'' = None)"
proof (intro conjI impI)
  assume h: "GetPluginsConfiguration fw host cfg base = Inr out \<and>
    RestApiGet host ''/plugins'' = JArray pluginList \<and>
    JString name \<in> set pluginList \<and> name \<noteq> ''explorer.js'' \<and> name \<notin> set override_table"
  then obtain components where c: "SplitUriComponents fw base = Inr components"
    using GetPluginsConfiguration_lookup by blast
  from h c obtain info where
    "lookup out name =
       Some (assign info ''Enabled''
         (JBool (case enablement_override cfg name of Some x \<Rightarrow> x | None \<Rightarrow> True)))"
    using reported_record by blast
  with h have "lookup out name = Some (assign info ''Enabled'' (JBool True))"
    by (simp add: enablement_override_None)
  then show "\<exists>entry. lookup out name = Some entry \<and>
      lookup entry ''Enabled'' = Some (JBool True)"
    by (simp add: lookup_assign)
next
  assume run: "GetPluginsConfiguration fw host cfg base = Inr out"
  then obtain pre es where "for_each (plugin_round host cfg pre) es JNull = Inr out"
    by (auto simp: GetPluginsConfiguration_def Let_def split: sum.splits)
  from for_each_plugin_round[OF this, of "''explorer.js''"]
  show "lookup out ''explorer.js'' = None"
    by (simp add: lookup_def)
qed

theorem unlisted_plugin_Enabled_witness:
  "GetPluginsConfiguration example_framework example_host example_configuration ''/ui/''
     = Inr example_output \<and>
   ''housekeeper'' \<notin> set override_table \<and>
   lookup example_output ''housekeeper''
     = Some (JObject [(''Enabled'', JBool True), (''ID'', JString ''housekeeper'')]) \<and>
   lookup example_output ''explorer.js'' = None"
proof -
  have name: "''housekeeper'' \<notin> set override_table"
    by (simp add: override_table_def)
  from unlisted_plugin_Enabled[of example_framework example_host example_configuration
      "''/ui/''" example_output
      "[JString ''dicom-web'', JString ''explorer.js'', JString ''housekeeper'']"
      "''housekeeper''"]
    name example_resolver_run example_host_plugins
  show ?thesis
    by (auto simp: example_output_def lookup_def)
qed

end
